theory Spec2Isabelle
  imports Complex_Main "HOL-Library.Multiset"
begin

section \<open>The gwemopt driver: data model\<close>

text \<open>
  The repository's source is the driver script \<^verbatim>\<open>gwemopt/__main__.py\<close>: it builds the
  \<^verbatim>\<open>params\<close> dictionary from the command-line options (\<^verbatim>\<open>params_struct\<close>) and then
  runs the stages of the pipeline in a fixed order, leaving through \<^verbatim>\<open>exit(0)\<close> at
  several guards. The model below follows the script statement by statement.

  \<^item> The functions of the other gwemopt modules, of numpy, astropy and the file system are
    collaborators. Every call of one is recorded as an \<open>event\<close> in the trace of the run, and
    what it returns is read from the record \<open>env\<close>. A collaborator is taken to return; the
    exceptions the driver's own statements raise (a missing dictionary key, an unbound
    variable, a string that is no float) are branches of the model.
  \<^item> Python floats are modelled as \<open>real\<close>: rounding and the non-finite values are not
    represented.
\<close>

datatype py_error = ValueError | KeyError | TypeError | NameError | OSError | IndexError

text \<open>How a run stops before the last statement: \<^verbatim>\<open>exit(0)\<close> or an exception.\<close>

datatype halt = Exit0 | Raised py_error

datatype refv = RFilt string | RInt int

text \<open>
  A value stored in a telescope's configuration dictionary: a number or a string read
  from the configuration file, a tessellation table (rows of numbers), the uninitialised
  array \<^verbatim>\<open>np.empty((3,))\<close>, the reference-image table, or the observer built from
  longitude, latitude and elevation.
\<close>

datatype cval =
    Num real
  | Str string
  | Tess "real list list"
  | TessEmpty3
  | RefImages "(int \<times> refv list) list"
  | Observer cval cval cval

type_synonym config = "string \<rightharpoonup> cval"

text \<open>One generated tile, as far as the driver reads it: its centre.\<close>

record tile =
  ra :: real
  dec :: real

text \<open>
  \<^verbatim>\<open>tile_structs\<close>: per telescope, the dictionary of its tiles (index to tile) as the list
  of its items in iteration order.
\<close>

type_synonym tile_structs = "string \<rightharpoonup> (int \<times> tile) list"

datatype strategy = Moc | Ranked | Hierarchical | Greedy | Galaxy

datatype skymap_source = UserSkymap string | EventSkymap | FootprintSkymap

datatype time_value = Now | NowMinusDay | Isot string

text \<open>\<^verbatim>\<open>params["Ntiles"]\<close> is the integer option until the hierarchical branch makes it a list.\<close>

datatype ntiles = NtilesInt int | NtilesList "nat list"

datatype event =
    MakeDirs
  | ReadParamsFromFile string
  | TesselationSpiral string
  | TesselationPacking string
  | LoadTxt string
  | ReadReferences string
  | Print string
  | GetEvent
  | FootprintGetSkymap
  | GetTelescopeSegments
  | ReadSkymap bool
  | GetCatalog
  | PlotSkymap
  | Observability
  | PlotObservability
  | PrintObservabilityExit string real real
  | LightcurveReadFiles
  | WriteZeroEfficiency string
  | SamplesFromSkymap bool
  | SimilarRange
  | CreateMoc
  | CreateRanked
  | TilesMoc
  | TilesHierarchical
  | TilesGreedy
  | TilesGalaxy
  | PlotTiles
  | TimeAllocation
  | ReadCoverageFiles
  | SchedulerSummary bool
  | PlotCoverage bool
  | LightcurveTophat
  | ComputeEfficiency string
  | PrintPercentDetections string
  | PlotEfficiency

text \<open>The command-line options the driver's control flow reads (\<^verbatim>\<open>parse_commandline\<close>).\<close>

record opts =
  outputDir :: string
  opt_telescopes :: string
  opt_filters :: string
  opt_exposuretimes :: string
  opt_Tobs :: string
  opt_raslice :: string
  opt_max_nb_tiles :: string
  opt_tilesType :: string
  opt_Ntiles :: int
  opt_skymap :: string
  opt_gpstime :: real
  opt_lightcurveFiles :: string
  opt_doTrueLocation :: bool
  opt_start_time :: "string option"
  opt_end_time :: "string option"
  doSingleExposure :: bool
  doEvent :: bool
  doFootprint :: bool
  doSkymap :: bool
  do3D :: bool
  doCatalog :: bool
  doPlots :: bool
  doObservability :: bool
  doObservabilityExit :: bool
  observability_thresh :: real
  doSamples :: bool
  doSplit :: bool
  doTiles :: bool
  doSchedule :: bool
  doCoverage :: bool
  doEfficiency :: bool
  modelType :: string

text \<open>
  The entries of \<^verbatim>\<open>params\<close> that the driver reads or writes again after
  \<^verbatim>\<open>params_struct\<close>; the other entries are plain copies of options.
\<close>

record params =
  config :: "string \<rightharpoonup> config"
  telescopes :: "string list"
  filters :: "string list"
  exposuretimes :: "real list"
  Tobs :: "real list"
  raslice :: "real list"
  max_nb_tiles :: "real list"
  tilesType :: string
  Ntiles :: ntiles
  skymap :: skymap_source
  gpstime :: real
  lightcurveFiles :: "string list"
  doTrueLocation :: bool
  start_time :: time_value
  end_time :: time_value

text \<open>What the collaborators return in this run.\<close>

record env =
  isdir_outputDir :: bool
  parse_float :: "string \<Rightarrow> real option"
  readParamsFromFile :: "string \<Rightarrow> config option"
  isfile :: "string \<Rightarrow> bool"
  loadtxt :: "string \<Rightarrow> real list list"
  read_references :: "string \<Rightarrow> (int \<times> int list) list"
  valid_isot :: "string \<Rightarrow> bool"
  event_gpstime :: real
  observability_prob :: "string \<rightharpoonup> real list"
  lightcurve_read_files :: "(string \<times> string) list"
  lightcurve_tophat :: "(string \<times> string) list"
  tiles_result :: "strategy \<Rightarrow> tile_structs"

text \<open>
  A stage either continues with a value or stops the run; both carry the trace of the
  collaborator calls and prints made so far.
\<close>

datatype 'a res = Cont 'a "event list" | Stop halt "event list"

definition bind :: "'a res \<Rightarrow> ('a \<Rightarrow> event list \<Rightarrow> 'b res) \<Rightarrow> 'b res" where
  "bind r f = (case r of Cont a tr \<Rightarrow> f a tr | Stop h tr \<Rightarrow> Stop h tr)"

fun trace_of :: "'a res \<Rightarrow> event list" where
  "trace_of (Cont a tr) = tr"
| "trace_of (Stop h tr) = tr"

fun stopped :: "'a res \<Rightarrow> bool" where
  "stopped (Cont a tr) = False"
| "stopped (Stop h tr) = True"

section \<open>Strings and numbers\<close>

text \<open>\<^verbatim>\<open>s.split(",")\<close>: one more piece than there are commas, empty pieces kept.\<close>

fun split_comma :: "string \<Rightarrow> string list" where
  "split_comma [] = [[]]"
| "split_comma (c # cs) =
     (if c = CHR '','' then [] # split_comma cs
      else (case split_comma cs of
              [] \<Rightarrow> [[c]]
            | w # ws \<Rightarrow> (c # w) # ws))"

text \<open>\<^verbatim>\<open>np.array(pieces, dtype=float)\<close>: every piece must parse, else \<^verbatim>\<open>ValueError\<close>.\<close>

fun parse_floats :: "(string \<Rightarrow> real option) \<Rightarrow> string list \<Rightarrow> py_error + real list" where
  "parse_floats pf [] = Inr []"
| "parse_floats pf (s # ss) =
     (case pf s of
        None \<Rightarrow> Inl ValueError
      | Some x \<Rightarrow> (case parse_floats pf ss of
                     Inl e \<Rightarrow> Inl e
                   | Inr xs \<Rightarrow> Inr (x # xs)))"

section \<open>\<^verbatim>\<open>params_struct\<close>: the telescope configurations\<close>

text \<open>
  Lines 279 to 295, the single-exposure block, on one telescope's configuration
  \<open>cfg\<close>; \<open>exposuretime\<close> is the first entry of the exposure-times list. The
  originals are stored first, then the magnitude is shifted by
  \<^verbatim>\<open>-2.5 * np.log10(np.sqrt(cfg["exposuretime"] / exposuretime))\<close> and the exposure time
  replaced. A missing key raises \<^verbatim>\<open>KeyError\<close>, arithmetic on a value that is no number
  raises \<^verbatim>\<open>TypeError\<close>.
\<close>

definition single_exposure :: "real \<Rightarrow> config \<Rightarrow> py_error + config" where
  "single_exposure exposuretime cfg =
     (case cfg ''magnitude'' of
        None \<Rightarrow> Inl KeyError
      | Some m \<Rightarrow>
          let cfg1 = cfg(''magnitude_orig'' \<mapsto> m) in
          (case cfg1 ''exposuretime'' of
             None \<Rightarrow> Inl KeyError
           | Some e \<Rightarrow>
               let cfg2 = cfg1(''exposuretime_orig'' \<mapsto> e) in
               (case cfg2 ''exposuretime'' of
                  Some (Num ev) \<Rightarrow>
                    let nmag = - 2.5 * log 10 (sqrt (ev / exposuretime)) in
                    (case cfg2 ''magnitude'' of
                       Some (Num mv) \<Rightarrow>
                         Inr (cfg2(''magnitude'' \<mapsto> Num (mv + nmag),
                                   ''exposuretime'' \<mapsto> Num exposuretime))
                     | Some _ \<Rightarrow> Inl TypeError
                     | None \<Rightarrow> Inl KeyError)
                | Some _ \<Rightarrow> Inl TypeError
                | None \<Rightarrow> Inl KeyError)))"

definition single_exposure_step :: "env \<Rightarrow> opts \<Rightarrow> config \<Rightarrow> event list \<Rightarrow> config res" where
  "single_exposure_step en op cfg tr =
     (if doSingleExposure op then
        (case parse_floats (parse_float en) (split_comma (opt_exposuretimes op)) of
           Inl e \<Rightarrow> Stop (Raised e) tr
         | Inr [] \<Rightarrow> Stop (Raised IndexError) tr
         | Inr (exposuretime # rest) \<Rightarrow>
             (case single_exposure exposuretime cfg of
                Inl e \<Rightarrow> Stop (Raised e) tr
              | Inr cfg' \<Rightarrow> Cont cfg' tr))
      else Cont cfg tr)"

text \<open>
  Lines 296 to 311. When the tessellation file does not exist it is generated for a
  circular or square field of view; \<open>np.loadtxt\<close> of a file that still does not exist
  raises.
\<close>

definition tesselation_step :: "env \<Rightarrow> opts \<Rightarrow> string \<Rightarrow> config \<Rightarrow> event list \<Rightarrow> config res" where
  "tesselation_step en op telescope cfg tr =
     (case cfg ''tesselationFile'' of
        None \<Rightarrow> Cont cfg tr
      | Some (Str tessfile) \<Rightarrow>
          (let generated =
                 (if isfile en tessfile then Cont False tr
                  else (case cfg ''FOV_type'' of
                          None \<Rightarrow> Stop (Raised KeyError) tr
                        | Some ft \<Rightarrow>
                            if ft = Str ''circle'' then Cont True (tr @ [TesselationSpiral telescope])
                            else if ft = Str ''square'' then Cont True (tr @ [TesselationPacking telescope])
                            else Cont False tr))
           in bind generated (\<lambda>made tr1.
                if opt_tilesType op = ''galaxy'' then Cont (cfg(''tesselation'' \<mapsto> TessEmpty3)) tr1
                else if isfile en tessfile \<or> made
                  then Cont (cfg(''tesselation'' \<mapsto> Tess (loadtxt en tessfile))) (tr1 @ [LoadTxt tessfile])
                  else Stop (Raised OSError) (tr1 @ [LoadTxt tessfile])))
      | Some _ \<Rightarrow> Stop (Raised TypeError) tr)"

definition reference_images_map :: "int \<Rightarrow> refv" where
  "reference_images_map n =
     (if n = 1 then RFilt ''g'' else if n = 2 then RFilt ''r''
      else if n = 3 then RFilt ''i'' else RInt n)"

definition reference_step :: "env \<Rightarrow> config \<Rightarrow> event list \<Rightarrow> config res" where
  "reference_step en cfg tr =
     (case cfg ''referenceFile'' of
        None \<Rightarrow> Cont cfg tr
      | Some (Str reffile) \<Rightarrow>
          Cont (cfg(''reference_images'' \<mapsto>
                  RefImages (map (\<lambda>(field, fids). (field, map reference_images_map fids))
                                 (read_references en reffile))))
               (tr @ [ReadReferences reffile])
      | Some _ \<Rightarrow> Stop (Raised TypeError) tr)"

definition observer_step :: "config \<Rightarrow> event list \<Rightarrow> config res" where
  "observer_step cfg tr =
     (case cfg ''longitude'' of
        None \<Rightarrow> Stop (Raised KeyError) tr
      | Some lon \<Rightarrow>
          (case cfg ''latitude'' of
             None \<Rightarrow> Stop (Raised KeyError) tr
           | Some lat \<Rightarrow>
               (case cfg ''elevation'' of
                  None \<Rightarrow> Stop (Raised KeyError) tr
                | Some elev \<Rightarrow> Cont (cfg(''observer'' \<mapsto> Observer lon lat elev)) tr)))"

text \<open>The body of the loop over the telescopes (lines 276 to 339).\<close>

definition config_telescope :: "env \<Rightarrow> opts \<Rightarrow> string \<Rightarrow> event list \<Rightarrow> config res" where
  "config_telescope en op telescope tr =
     (case readParamsFromFile en telescope of
        None \<Rightarrow> Stop (Raised OSError) (tr @ [ReadParamsFromFile telescope])
      | Some cfg0 \<Rightarrow>
          bind (single_exposure_step en op (cfg0(''telescope'' \<mapsto> Str telescope))
                  (tr @ [ReadParamsFromFile telescope]))
            (\<lambda>cfg1 tr1. bind (tesselation_step en op telescope cfg1 tr1)
              (\<lambda>cfg2 tr2. bind (reference_step en cfg2 tr2) observer_step)))"

fun config_loop ::
  "env \<Rightarrow> opts \<Rightarrow> string list \<Rightarrow> (string \<rightharpoonup> config) \<Rightarrow> event list \<Rightarrow> (string \<rightharpoonup> config) res" where
  "config_loop en op [] cfgs tr = Cont cfgs tr"
| "config_loop en op (telescope # rest) cfgs tr =
     (case config_telescope en op telescope tr of
        Stop h tr' \<Rightarrow> Stop h tr'
      | Cont cfg tr' \<Rightarrow> config_loop en op rest (cfgs(telescope \<mapsto> cfg)) tr')"

definition time_option :: "env \<Rightarrow> string option \<Rightarrow> time_value \<Rightarrow> py_error + time_value" where
  "time_option en given dflt =
     (case given of
        None \<Rightarrow> Inr dflt
      | Some s \<Rightarrow> if valid_isot en s then Inr (Isot s) else Inl ValueError)"

text \<open>
  \<^verbatim>\<open>params_struct\<close>: the telescope loop, then the entries of \<^verbatim>\<open>params\<close> in the order of
  the source; the four comma-separated number lists and the two times can fail to parse.
\<close>

definition params_struct :: "env \<Rightarrow> opts \<Rightarrow> event list \<Rightarrow> params res" where
  "params_struct en op tr =
     bind (config_loop en op (split_comma (opt_telescopes op)) Map.empty tr) (\<lambda>cfgs tr1.
       case parse_floats (parse_float en) (split_comma (opt_Tobs op)) of
         Inl e \<Rightarrow> Stop (Raised e) tr1
       | Inr tobs \<Rightarrow>
       (case parse_floats (parse_float en) (split_comma (opt_raslice op)) of
         Inl e \<Rightarrow> Stop (Raised e) tr1
       | Inr rasl \<Rightarrow>
       (case parse_floats (parse_float en) (split_comma (opt_exposuretimes op)) of
         Inl e \<Rightarrow> Stop (Raised e) tr1
       | Inr exps \<Rightarrow>
       (case parse_floats (parse_float en) (split_comma (opt_max_nb_tiles op)) of
         Inl e \<Rightarrow> Stop (Raised e) tr1
       | Inr maxnb \<Rightarrow>
       (case time_option en (opt_start_time op) NowMinusDay of
         Inl e \<Rightarrow> Stop (Raised e) tr1
       | Inr st \<Rightarrow>
       (case time_option en (opt_end_time op) Now of
         Inl e \<Rightarrow> Stop (Raised e) tr1
       | Inr et \<Rightarrow>
           Cont \<lparr> config = cfgs,
                  telescopes = split_comma (opt_telescopes op),
                  filters = split_comma (opt_filters op),
                  exposuretimes = exps,
                  Tobs = tobs,
                  raslice = rasl,
                  max_nb_tiles = maxnb,
                  tilesType = opt_tilesType op,
                  Ntiles = NtilesInt (opt_Ntiles op),
                  skymap = UserSkymap (opt_skymap op),
                  gpstime = opt_gpstime op,
                  lightcurveFiles = split_comma (opt_lightcurveFiles op),
                  doTrueLocation = opt_doTrueLocation op,
                  start_time = st,
                  end_time = et \<rparr> tr1))))))"

section \<open>The main script\<close>

text \<open>
  The module-level variables the script binds besides \<^verbatim>\<open>params\<close>: \<^verbatim>\<open>catalog_struct\<close> and
  \<^verbatim>\<open>moc_structs\<close> (bound or not; a read of an unbound one raises \<^verbatim>\<open>NameError\<close>) and
  \<^verbatim>\<open>tile_structs\<close>.
\<close>

record state =
  v_params :: params
  catalog_struct :: bool
  moc_structs :: bool
  v_tile_structs :: "tile_structs option"

text \<open>Lines 490 to 492.\<close>

definition check_filters :: "state \<Rightarrow> event list \<Rightarrow> state res" where
  "check_filters st tr =
     (if length (filters (v_params st)) \<noteq> length (exposuretimes (v_params st))
      then Stop Exit0
             (tr @ [Print ''The number of filters specified must match the number of exposure times.''])
      else Cont st tr)"

text \<open>Lines 494 to 503.\<close>

definition select_skymap :: "env \<Rightarrow> opts \<Rightarrow> state \<Rightarrow> event list \<Rightarrow> state res" where
  "select_skymap en op st tr =
     (if doEvent op then
        Cont (st\<lparr>v_params := (v_params st)\<lparr>skymap := EventSkymap, gpstime := event_gpstime en\<rparr>\<rparr>)
             (tr @ [GetEvent])
      else if doFootprint op then
        Cont (st\<lparr>v_params := (v_params st)\<lparr>skymap := FootprintSkymap\<rparr>\<rparr>)
             (tr @ [FootprintGetSkymap])
      else if doSkymap op then Cont st tr
      else Stop Exit0 (tr @ [Print ''Need to enable --doEvent, --doFootprint or --doSkymap'']))"

text \<open>
  Lines 505 to 520: the telescope segments, the skymap, the catalog, the skymap plot.
  \<^verbatim>\<open>get_telescope_segments\<close> returns the \<^verbatim>\<open>params\<close> it was given with the segments added;
  the entries modelled here are not among them.
\<close>

definition load_skymap :: "opts \<Rightarrow> state \<Rightarrow> event list \<Rightarrow> state res" where
  "load_skymap op st tr =
     Cont (if doCatalog op then st\<lparr>catalog_struct := True\<rparr> else st)
          (tr @ [GetTelescopeSegments, ReadSkymap (do3D op)]
              @ (if doCatalog op then [GetCatalog] else [])
              @ (if doPlots op then [PlotSkymap] else []))"

text \<open>
  Lines 530 to 558: the loop over the telescopes of the observability exit. The first
  telescope whose summed observability probability is below the threshold ends the
  whole program with \<^verbatim>\<open>exit(0)\<close>, after writing a zero efficiency per lightcurve when
  the true location is in use.
\<close>

fun observability_exit_loop ::
  "env \<Rightarrow> opts \<Rightarrow> params \<Rightarrow> string list \<Rightarrow> event list \<Rightarrow> unit res" where
  "observability_exit_loop en op p [] tr = Cont () tr"
| "observability_exit_loop en op p (telescope # rest) tr =
     (case observability_prob en telescope of
        None \<Rightarrow> Stop (Raised KeyError) tr
      | Some prob \<Rightarrow>
          if sum_list prob < observability_thresh op then
            Stop Exit0
              (tr @ [PrintObservabilityExit telescope (sum_list prob) (observability_thresh op)]
                  @ (if doTrueLocation p then
                       LightcurveReadFiles #
                       map (\<lambda>(key, name). WriteZeroEfficiency (''efficiency_true_'' @ name @ ''.txt''))
                           (lightcurve_read_files en)
                     else []))
          else observability_exit_loop en op p rest tr)"

text \<open>Lines 522 to 558.\<close>

definition observability_stage :: "env \<Rightarrow> opts \<Rightarrow> state \<Rightarrow> event list \<Rightarrow> state res" where
  "observability_stage en op st tr =
     (if doObservability op then
        (let tr1 = tr @ [Observability] @ (if doPlots op then [PlotObservability] else []) in
         if doObservabilityExit op then
           (case observability_exit_loop en op (v_params st) (telescopes (v_params st)) tr1 of
              Stop h tr2 \<Rightarrow> Stop h tr2
            | Cont u tr2 \<Rightarrow> Cont st tr2)
         else Cont st tr1)
      else Cont st tr)"

text \<open>Lines 560 to 570.\<close>

definition samples_split :: "opts \<Rightarrow> state \<Rightarrow> event list \<Rightarrow> state res" where
  "samples_split op st tr =
     Cont st (tr @ (if doSamples op then [SamplesFromSkymap (do3D op)] else [])
                 @ (if doSplit op then [SimilarRange] else []))"

text \<open>
  The loop of the greedy and the galaxy branch (lines 601 to 610 and 615 to 624): every
  telescope's tessellation is emptied and refilled with one row
  \<^verbatim>\<open>[index, ra, dec]\<close> per generated tile.
\<close>

definition tesselation_rows :: "(int \<times> tile) list \<Rightarrow> real list list" where
  "tesselation_rows tiles_struct = map (\<lambda>(index, t). [of_int index, ra t, dec t]) tiles_struct"

fun tesselation_loop :: "tile_structs \<Rightarrow> string list \<Rightarrow> params \<Rightarrow> py_error + params" where
  "tesselation_loop ts [] p = Inr p"
| "tesselation_loop ts (telescope # rest) p =
     (case config p telescope of
        None \<Rightarrow> Inl KeyError
      | Some cfg \<Rightarrow>
          (case ts telescope of
             None \<Rightarrow> Inl KeyError
           | Some tiles_struct \<Rightarrow>
               tesselation_loop ts rest
                 (p\<lparr>config := (config p)(telescope \<mapsto>
                       cfg(''tesselation'' \<mapsto> Tess (tesselation_rows tiles_struct)))\<rparr>)))"

text \<open>
  The loop of the hierarchical branch (lines 586 to 596): the same, and the number of
  tiles of the telescope is appended to \<^verbatim>\<open>params["Ntiles"]\<close>, which line 585 has made the
  empty list; \<open>ns\<close> is that list so far.
\<close>

fun hierarchical_loop :: "tile_structs \<Rightarrow> string list \<Rightarrow> nat list \<Rightarrow> params \<Rightarrow> py_error + params" where
  "hierarchical_loop ts [] ns p = Inr (p\<lparr>Ntiles := NtilesList ns\<rparr>)"
| "hierarchical_loop ts (telescope # rest) ns p =
     (case config p telescope of
        None \<Rightarrow> Inl KeyError
      | Some cfg \<Rightarrow>
          (case ts telescope of
             None \<Rightarrow> Inl KeyError
           | Some tiles_struct \<Rightarrow>
               hierarchical_loop ts rest (ns @ [length tiles_struct])
                 (p\<lparr>config := (config p)(telescope \<mapsto>
                       cfg(''tesselation'' \<mapsto> Tess (tesselation_rows tiles_struct)))\<rparr>)))"

text \<open>Lines 573 to 627: the dispatch on \<^verbatim>\<open>params["tilesType"]\<close>.\<close>

definition tiles_dispatch :: "env \<Rightarrow> state \<Rightarrow> event list \<Rightarrow> state res" where
  "tiles_dispatch en st tr =
     (let p = v_params st in
      if tilesType p = ''moc'' then
        Cont (st\<lparr>moc_structs := True, v_tile_structs := Some (tiles_result en Moc)\<rparr>)
             (tr @ [CreateMoc, TilesMoc])
      else if tilesType p = ''ranked'' then
        Cont (st\<lparr>moc_structs := True, v_tile_structs := Some (tiles_result en Ranked)\<rparr>)
             (tr @ [CreateRanked, TilesMoc])
      else if tilesType p = ''hierarchical'' then
        (case hierarchical_loop (tiles_result en Hierarchical) (telescopes p) [] p of
           Inl e \<Rightarrow> Stop (Raised e) (tr @ [TilesHierarchical])
         | Inr p' \<Rightarrow>
             Cont (st\<lparr>v_params := p', v_tile_structs := Some (tiles_result en Hierarchical)\<rparr>)
                  (tr @ [TilesHierarchical]))
      else if tilesType p = ''greedy'' then
        (case tesselation_loop (tiles_result en Greedy) (telescopes p) p of
           Inl e \<Rightarrow> Stop (Raised e) (tr @ [TilesGreedy])
         | Inr p' \<Rightarrow>
             Cont (st\<lparr>v_params := p', v_tile_structs := Some (tiles_result en Greedy)\<rparr>)
                  (tr @ [TilesGreedy]))
      else if tilesType p = ''galaxy'' then
        (if catalog_struct st then
           (case tesselation_loop (tiles_result en Galaxy) (telescopes p) p of
              Inl e \<Rightarrow> Stop (Raised e) (tr @ [TilesGalaxy])
            | Inr p' \<Rightarrow>
                Cont (st\<lparr>v_params := p', v_tile_structs := Some (tiles_result en Galaxy)\<rparr>)
                     (tr @ [TilesGalaxy]))
         else Stop (Raised NameError) tr)
      else Stop Exit0
             (tr @ [Print ''Need tilesType to be moc, greedy, hierarchical, ranked or galaxy'']))"

text \<open>Lines 572 to 631.\<close>

definition tiles_stage :: "env \<Rightarrow> opts \<Rightarrow> state \<Rightarrow> event list \<Rightarrow> state res" where
  "tiles_stage en op st tr =
     (if doTiles op then
        bind (tiles_dispatch en st tr)
          (\<lambda>st1 tr1. Cont st1 (tr1 @ (if doPlots op then [PlotTiles] else [])))
      else Cont st tr)"

text \<open>Lines 634 to 647.\<close>

definition schedule_stage :: "opts \<Rightarrow> state \<Rightarrow> event list \<Rightarrow> state res" where
  "schedule_stage op st tr =
     (if doSchedule op then
        (if doTiles op then
           (case v_tile_structs st of
              None \<Rightarrow> Stop (Raised NameError) tr
            | Some ts \<Rightarrow> Cont st (tr @ [TimeAllocation]))
         else Stop Exit0 (tr @ [Print ''Need to enable --doTiles to use --doSchedule'']))
      else if doCoverage op then
        (if moc_structs st then Cont st (tr @ [ReadCoverageFiles])
         else Stop (Raised NameError) tr)
      else Cont st tr)"

text \<open>Lines 649 to 665.\<close>

definition summary_stage :: "opts \<Rightarrow> state \<Rightarrow> event list \<Rightarrow> state res" where
  "summary_stage op st tr =
     (if doSchedule op \<or> doCoverage op then
        Cont st (tr @ [SchedulerSummary (doCatalog op)]
                    @ (if doPlots op then [PlotCoverage (doCatalog op)] else []))
      else Cont st tr)"

text \<open>
  Lines 667 to 696. \<^verbatim>\<open>lightcurve_structs\<close> is bound for the model types \<^verbatim>\<open>file\<close> and
  \<^verbatim>\<open>Tophat\<close> only; the loop over it raises \<^verbatim>\<open>NameError\<close> otherwise.
\<close>

definition efficiency_stage :: "env \<Rightarrow> opts \<Rightarrow> state \<Rightarrow> event list \<Rightarrow> state res" where
  "efficiency_stage en op st tr =
     (if doEfficiency op then
        (if doSchedule op \<or> doCoverage op then
           (let bound =
                  (if modelType op = ''file'' then Some (lightcurve_read_files en, [LightcurveReadFiles])
                   else if modelType op = ''Tophat'' then Some (lightcurve_tophat en, [LightcurveTophat])
                   else None)
            in case bound of
                 None \<Rightarrow> Stop (Raised NameError) tr
               | Some (lightcurve_structs, called) \<Rightarrow>
                   Cont st (tr @ called
                     @ concat (map (\<lambda>(key, name).
                                 ComputeEfficiency key #
                                 (if do3D op then [PrintPercentDetections key] else []))
                               lightcurve_structs)
                     @ (if doPlots op then [PlotEfficiency] else [])))
         else Stop Exit0
                (tr @ [Print ''Need to enable --doSchedule or --doCoverage for --doEfficiency'']))
      else Cont st tr)"

text \<open>
  The script from line 484: the output directory, \<^verbatim>\<open>params_struct\<close>, then the stages in
  the order of the source. \<open>pre_observability\<close> is the run up to line 520, \<open>pre_tiles\<close>
  the run up to line 570.
\<close>

definition init_state :: "params \<Rightarrow> state" where
  "init_state p =
     \<lparr> v_params = p, catalog_struct = False, moc_structs = False, v_tile_structs = None \<rparr>"

definition pre_observability :: "env \<Rightarrow> opts \<Rightarrow> state res" where
  "pre_observability en op =
     bind (params_struct en op (if isdir_outputDir en then [] else [MakeDirs]))
       (\<lambda>p tr. bind (check_filters (init_state p) tr)
         (\<lambda>st tr. bind (select_skymap en op st tr) (load_skymap op)))"

definition pre_tiles :: "env \<Rightarrow> opts \<Rightarrow> state res" where
  "pre_tiles en op =
     bind (pre_observability en op)
       (\<lambda>st tr. bind (observability_stage en op st tr) (samples_split op))"

definition post_tiles :: "env \<Rightarrow> opts \<Rightarrow> state \<Rightarrow> event list \<Rightarrow> state res" where
  "post_tiles en op st tr =
     bind (schedule_stage op st tr)
       (\<lambda>st tr. bind (summary_stage op st tr) (efficiency_stage en op))"

definition run :: "env \<Rightarrow> opts \<Rightarrow> state res" where
  "run en op =
     bind (pre_tiles en op)
       (\<lambda>st tr. bind (tiles_stage en op st tr) (post_tiles en op))"

section \<open>Properties of runs: the vocabulary\<close>

text \<open>The tiling strategy an event starts, if any; the strategies a trace has run, in order.\<close>

fun strategy_of_event :: "event \<Rightarrow> strategy option" where
  "strategy_of_event CreateMoc = Some Moc"
| "strategy_of_event CreateRanked = Some Ranked"
| "strategy_of_event TilesHierarchical = Some Hierarchical"
| "strategy_of_event TilesGreedy = Some Greedy"
| "strategy_of_event TilesGalaxy = Some Galaxy"
| "strategy_of_event e = None"

definition strategies_run :: "event list \<Rightarrow> strategy list" where
  "strategies_run tr = List.map_filter strategy_of_event tr"

definition strategy_of_tag :: "string \<Rightarrow> strategy option" where
  "strategy_of_tag tag =
     (if tag = ''moc'' then Some Moc
      else if tag = ''ranked'' then Some Ranked
      else if tag = ''hierarchical'' then Some Hierarchical
      else if tag = ''greedy'' then Some Greedy
      else if tag = ''galaxy'' then Some Galaxy
      else None)"

text \<open>
  Classes of events: what \<^verbatim>\<open>params_struct\<close> and the creation of the output directory do;
  tiling; the coverage plan (time allocation with its scheduling, coverage read from
  files, the summary and plot of the coverage); the efficiency computation.
\<close>

fun setup_event :: "event \<Rightarrow> bool" where
  "setup_event MakeDirs = True"
| "setup_event (ReadParamsFromFile t) = True"
| "setup_event (TesselationSpiral t) = True"
| "setup_event (TesselationPacking t) = True"
| "setup_event (LoadTxt f) = True"
| "setup_event (ReadReferences f) = True"
| "setup_event e = False"

fun print_event :: "event \<Rightarrow> bool" where
  "print_event (Print s) = True"
| "print_event e = False"

fun tiling_event :: "event \<Rightarrow> bool" where
  "tiling_event CreateMoc = True"
| "tiling_event CreateRanked = True"
| "tiling_event TilesMoc = True"
| "tiling_event TilesHierarchical = True"
| "tiling_event TilesGreedy = True"
| "tiling_event TilesGalaxy = True"
| "tiling_event PlotTiles = True"
| "tiling_event e = False"

fun coverage_event :: "event \<Rightarrow> bool" where
  "coverage_event TimeAllocation = True"
| "coverage_event ReadCoverageFiles = True"
| "coverage_event (SchedulerSummary b) = True"
| "coverage_event (PlotCoverage b) = True"
| "coverage_event e = False"

fun efficiency_event :: "event \<Rightarrow> bool" where
  "efficiency_event LightcurveTophat = True"
| "efficiency_event (ComputeEfficiency k) = True"
| "efficiency_event (PrintPercentDetections k) = True"
| "efficiency_event PlotEfficiency = True"
| "efficiency_event e = False"

text \<open>
  The guards of the script, as conditions on the options and on what the observability
  collaborator returned: the two lists have equal length (line 490); a skymap source is
  enabled as well (line 501); no telescope triggers the observability exit as well
  (line 531); the tiling dispatch is passed as well (line 625, and the galaxy branch needs
  the catalog).
\<close>

definition lengths_match :: "opts \<Rightarrow> bool" where
  "lengths_match op \<longleftrightarrow>
     length (split_comma (opt_filters op)) = length (split_comma (opt_exposuretimes op))"

definition source_enabled :: "opts \<Rightarrow> bool" where
  "source_enabled op \<longleftrightarrow> lengths_match op \<and> (doEvent op \<or> doFootprint op \<or> doSkymap op)"

definition below_threshold :: "env \<Rightarrow> opts \<Rightarrow> string \<Rightarrow> bool" where
  "below_threshold en op telescope =
     (case observability_prob en telescope of
        None \<Rightarrow> False
      | Some prob \<Rightarrow> sum_list prob < observability_thresh op)"

definition observable :: "env \<Rightarrow> opts \<Rightarrow> string \<Rightarrow> bool" where
  "observable en op telescope =
     (case observability_prob en telescope of
        None \<Rightarrow> False
      | Some prob \<Rightarrow> \<not> sum_list prob < observability_thresh op)"

definition observability_passed :: "env \<Rightarrow> opts \<Rightarrow> bool" where
  "observability_passed en op \<longleftrightarrow>
     source_enabled op \<and>
     (\<not> (doObservability op \<and> doObservabilityExit op) \<or>
      list_all (observable en op) (split_comma (opt_telescopes op)))"

definition tiles_passed :: "env \<Rightarrow> opts \<Rightarrow> bool" where
  "tiles_passed en op \<longleftrightarrow>
     observability_passed en op \<and>
     (\<not> doTiles op \<or>
      (case strategy_of_tag (opt_tilesType op) of
         None \<Rightarrow> False
       | Some s \<Rightarrow> s \<noteq> Galaxy \<or> doCatalog op))"

definition coverage_passed :: "env \<Rightarrow> opts \<Rightarrow> bool" where
  "coverage_passed en op \<longleftrightarrow>
     tiles_passed en op \<and>
     ((doSchedule op \<and> doTiles op) \<or>
      (\<not> doSchedule op \<and> doCoverage op \<and> doTiles op \<and>
       (opt_tilesType op = ''moc'' \<or> opt_tilesType op = ''ranked'')))"

text \<open>
  For every event, a condition that holds whenever the event occurs in a run
  (\<open>run_events_guarded\<close> below): the guards that stand before the statement making it.
\<close>

fun guarded :: "env \<Rightarrow> opts \<Rightarrow> event \<Rightarrow> bool" where
  "guarded en op MakeDirs = (\<not> isdir_outputDir en)"
| "guarded en op (ReadParamsFromFile t) = (t \<in> set (split_comma (opt_telescopes op)))"
| "guarded en op (TesselationSpiral t) = (t \<in> set (split_comma (opt_telescopes op)))"
| "guarded en op (TesselationPacking t) = (t \<in> set (split_comma (opt_telescopes op)))"
| "guarded en op (LoadTxt f) = (opt_tilesType op \<noteq> ''galaxy'')"
| "guarded en op (ReadReferences f) = True"
| "guarded en op (Print s) = True"
| "guarded en op GetEvent = (lengths_match op \<and> doEvent op)"
| "guarded en op FootprintGetSkymap = (lengths_match op \<and> \<not> doEvent op \<and> doFootprint op)"
| "guarded en op GetTelescopeSegments = source_enabled op"
| "guarded en op (ReadSkymap b) = (source_enabled op \<and> b = do3D op)"
| "guarded en op GetCatalog = (source_enabled op \<and> doCatalog op)"
| "guarded en op PlotSkymap = (source_enabled op \<and> doPlots op)"
| "guarded en op Observability = (source_enabled op \<and> doObservability op)"
| "guarded en op PlotObservability = (source_enabled op \<and> doObservability op \<and> doPlots op)"
| "guarded en op (PrintObservabilityExit t s th) =
     (source_enabled op \<and> doObservability op \<and> doObservabilityExit op \<and>
      t \<in> set (split_comma (opt_telescopes op)) \<and> below_threshold en op t)"
| "guarded en op LightcurveReadFiles =
     (source_enabled op \<and>
      (doObservability op \<and> doObservabilityExit op \<and> opt_doTrueLocation op \<or>
       coverage_passed en op \<and> doEfficiency op \<and> modelType op = ''file''))"
| "guarded en op (WriteZeroEfficiency f) =
     (source_enabled op \<and> doObservability op \<and> doObservabilityExit op \<and> opt_doTrueLocation op)"
| "guarded en op (SamplesFromSkymap b) = (observability_passed en op \<and> doSamples op \<and> b = do3D op)"
| "guarded en op SimilarRange = (observability_passed en op \<and> doSplit op)"
| "guarded en op CreateMoc =
     (observability_passed en op \<and> doTiles op \<and> opt_tilesType op = ''moc'')"
| "guarded en op CreateRanked =
     (observability_passed en op \<and> doTiles op \<and> opt_tilesType op = ''ranked'')"
| "guarded en op TilesMoc =
     (observability_passed en op \<and> doTiles op \<and>
      (opt_tilesType op = ''moc'' \<or> opt_tilesType op = ''ranked''))"
| "guarded en op TilesHierarchical =
     (observability_passed en op \<and> doTiles op \<and> opt_tilesType op = ''hierarchical'')"
| "guarded en op TilesGreedy =
     (observability_passed en op \<and> doTiles op \<and> opt_tilesType op = ''greedy'')"
| "guarded en op TilesGalaxy =
     (observability_passed en op \<and> doTiles op \<and> opt_tilesType op = ''galaxy'' \<and> doCatalog op)"
| "guarded en op PlotTiles = (tiles_passed en op \<and> doTiles op \<and> doPlots op)"
| "guarded en op TimeAllocation = (tiles_passed en op \<and> doSchedule op \<and> doTiles op)"
| "guarded en op ReadCoverageFiles =
     (coverage_passed en op \<and> \<not> doSchedule op \<and> doCoverage op)"
| "guarded en op (SchedulerSummary b) = (coverage_passed en op \<and> b = doCatalog op)"
| "guarded en op (PlotCoverage b) = (coverage_passed en op \<and> doPlots op \<and> b = doCatalog op)"
| "guarded en op LightcurveTophat =
     (coverage_passed en op \<and> doEfficiency op \<and> modelType op = ''Tophat'')"
| "guarded en op (ComputeEfficiency k) = (coverage_passed en op \<and> doEfficiency op)"
| "guarded en op (PrintPercentDetections k) = (coverage_passed en op \<and> doEfficiency op \<and> do3D op)"
| "guarded en op PlotEfficiency = (coverage_passed en op \<and> doEfficiency op \<and> doPlots op)"

text \<open>
  A small Hoare logic for stages: from the trace \<open>tr\<close>, the result \<open>r\<close> has appended
  only events that satisfy \<open>P\<close>, and if it continues, its value satisfies \<open>Q\<close>.
\<close>

definition ensures :: "(event \<Rightarrow> bool) \<Rightarrow> ('a \<Rightarrow> bool) \<Rightarrow> event list \<Rightarrow> 'a res \<Rightarrow> bool" where
  "ensures P Q tr r \<longleftrightarrow>
     (\<exists>ev. trace_of r = tr @ ev \<and> list_all P ev) \<and>
     (case r of Cont a tr' \<Rightarrow> Q a | Stop h tr' \<Rightarrow> True)"

text \<open>What \<^verbatim>\<open>params_struct\<close> establishes and the stages up to the tiling keep.\<close>

definition params_inv :: "opts \<Rightarrow> params \<Rightarrow> bool" where
  "params_inv op p \<longleftrightarrow>
     telescopes p = split_comma (opt_telescopes op) \<and>
     filters p = split_comma (opt_filters op) \<and>
     length (exposuretimes p) = length (split_comma (opt_exposuretimes op)) \<and>
     tilesType p = opt_tilesType op \<and>
     Ntiles p = NtilesInt (opt_Ntiles op) \<and>
     doTrueLocation p = opt_doTrueLocation op \<and>
     set (telescopes p) \<subseteq> dom (config p)"

text \<open>What holds of the script's variables after each stage that continues.\<close>

definition checked :: "opts \<Rightarrow> state \<Rightarrow> bool" where
  "checked op st \<longleftrightarrow>
     params_inv op (v_params st) \<and> lengths_match op \<and>
     \<not> catalog_struct st \<and> \<not> moc_structs st \<and> v_tile_structs st = None"

definition loaded :: "opts \<Rightarrow> state \<Rightarrow> bool" where
  "loaded op st \<longleftrightarrow>
     params_inv op (v_params st) \<and> source_enabled op \<and>
     catalog_struct st = doCatalog op \<and> \<not> moc_structs st \<and> v_tile_structs st = None"

definition observed :: "env \<Rightarrow> opts \<Rightarrow> state \<Rightarrow> bool" where
  "observed en op st \<longleftrightarrow> loaded op st \<and> observability_passed en op"

definition tiled :: "env \<Rightarrow> opts \<Rightarrow> state \<Rightarrow> bool" where
  "tiled en op st \<longleftrightarrow>
     tiles_passed en op \<and>
     moc_structs st = (doTiles op \<and> (opt_tilesType op = ''moc'' \<or> opt_tilesType op = ''ranked'')) \<and>
     (v_tile_structs st = None) = (\<not> doTiles op)"

text \<open>
  The guarded events by part of the script: before the tiling (no tiling, coverage or
  efficiency event), in the tiling stage, after it.
\<close>

definition pre_guarded :: "env \<Rightarrow> opts \<Rightarrow> event \<Rightarrow> bool" where
  "pre_guarded en op e \<longleftrightarrow>
     guarded en op e \<and> \<not> tiling_event e \<and> \<not> coverage_event e \<and> \<not> efficiency_event e"

definition tiles_guarded :: "env \<Rightarrow> opts \<Rightarrow> event \<Rightarrow> bool" where
  "tiles_guarded en op e \<longleftrightarrow>
     guarded en op e \<and> (tiling_event e \<or> print_event e)"

definition post_guarded :: "env \<Rightarrow> opts \<Rightarrow> event \<Rightarrow> bool" where
  "post_guarded en op e \<longleftrightarrow> guarded en op e \<and> \<not> tiling_event e"

section \<open>Concrete runs\<close>

text \<open>
  A concrete environment and the default options of \<^verbatim>\<open>parse_commandline\<close>, used to
  evaluate the model: two telescopes with a configuration file each, of which the first
  sees 1 percent of the probability and the second 90 percent, and tilings that give the
  first telescope one tile and the second two.
\<close>

definition demo_parse_float :: "string \<Rightarrow> real option" where
  "demo_parse_float s =
     (if s = ''30.0'' then Some 30
      else if s = ''120.0'' then Some 120
      else if s = ''0.0'' then Some 0
      else if s = ''1.0'' then Some 1
      else if s = ''24.0'' then Some 24
      else if s = ''-1'' then Some (- 1)
      else None)"

definition demo_config :: config where
  "demo_config =
     [''magnitude'' \<mapsto> Num 20, ''exposuretime'' \<mapsto> Num 30,
      ''latitude'' \<mapsto> Num 20, ''longitude'' \<mapsto> Num (- 155), ''elevation'' \<mapsto> Num 3000,
      ''FOV_type'' \<mapsto> Str ''square'', ''FOV'' \<mapsto> Num 5,
      ''tesselationFile'' \<mapsto> Str ''demo.tess'']"

definition demo_tiles :: tile_structs where
  "demo_tiles =
     [''ATLAS'' \<mapsto> [(0, \<lparr>ra = 10, dec = 20\<rparr>)],
      ''ZTF'' \<mapsto> [(3, \<lparr>ra = 11, dec = 21\<rparr>), (7, \<lparr>ra = 12, dec = 22\<rparr>)]]"

definition demo_env :: env where
  "demo_env =
     \<lparr> isdir_outputDir = True,
       parse_float = demo_parse_float,
       readParamsFromFile = (\<lambda>t. if t = ''ATLAS'' \<or> t = ''ZTF'' then Some demo_config else None),
       isfile = (\<lambda>f. True),
       loadtxt = (\<lambda>f. [[0, 0, 0]]),
       read_references = (\<lambda>f. []),
       valid_isot = (\<lambda>s. True),
       event_gpstime = 0,
       observability_prob = [''ATLAS'' \<mapsto> [1 / 100], ''ZTF'' \<mapsto> [9 / 10]],
       lightcurve_read_files = [],
       lightcurve_tophat = [(''tophat'', ''tophat'')],
       tiles_result = (\<lambda>s. demo_tiles) \<rparr>"

definition demo_opts :: opts where
  "demo_opts =
     \<lparr> outputDir = ''output'',
       opt_telescopes = ''ATLAS'',
       opt_filters = ''r,g,r'',
       opt_exposuretimes = ''30.0,30.0,30.0'',
       opt_Tobs = ''0.0,1.0'',
       opt_raslice = ''0.0,24.0'',
       opt_max_nb_tiles = ''-1,-1,-1'',
       opt_tilesType = ''moc'',
       opt_Ntiles = 10,
       opt_skymap = ''skymap.fits'',
       opt_gpstime = 1167559936,
       opt_lightcurveFiles = ''lightcurve.dat'',
       opt_doTrueLocation = False,
       opt_start_time = None,
       opt_end_time = None,
       doSingleExposure = False,
       doEvent = False,
       doFootprint = False,
       doSkymap = False,
       do3D = False,
       doCatalog = False,
       doPlots = False,
       doObservability = False,
       doObservabilityExit = False,
       observability_thresh = 5 / 100,
       doSamples = False,
       doSplit = False,
       doTiles = False,
       doSchedule = False,
       doCoverage = False,
       doEfficiency = False,
       modelType = ''Tophat'' \<rparr>"

text \<open>
  The skymap source by precedence, as the claim about lines 494 to 503 words it: the event
  database before the footprint before the user's skymap; and the collaborator call that
  fetches it.
\<close>

definition chosen_source :: "opts \<Rightarrow> skymap_source" where
  "chosen_source op =
     (if doEvent op then EventSkymap
      else if doFootprint op then FootprintSkymap
      else UserSkymap (opt_skymap op))"

definition source_calls :: "opts \<Rightarrow> event list" where
  "source_calls op =
     (if doEvent op then [GetEvent]
      else if doFootprint op then [FootprintGetSkymap]
      else [])"

text \<open>
  Options for a run over both telescopes with the observability exit, tiling and
  scheduling requested.
\<close>

definition demo_opts_exit :: opts where
  "demo_opts_exit =
     demo_opts\<lparr> opt_telescopes := ''ATLAS,ZTF'', doSkymap := True, doObservability := True,
                doObservabilityExit := True, doTiles := True, doSchedule := True \<rparr>"

text \<open>The number of tiles a tiling result holds for a telescope.\<close>

definition tile_count :: "tile_structs \<Rightarrow> string \<Rightarrow> nat" where
  "tile_count ts telescope = (case ts telescope of None \<Rightarrow> 0 | Some tiles_struct \<Rightarrow> length tiles_struct)"

text \<open>
  A telescope's tessellation in \<^verbatim>\<open>params\<close> is the table of rows \<^verbatim>\<open>[index, ra, dec]\<close> of
  the tiles a tiling result holds for it.
\<close>

definition tesselation_rebuilt :: "tile_structs \<Rightarrow> params \<Rightarrow> string \<Rightarrow> bool" where
  "tesselation_rebuilt ts p telescope =
     (case (config p telescope, ts telescope) of
        (Some cfg, Some tiles_struct) \<Rightarrow>
          cfg ''tesselation'' = Some (Tess (tesselation_rows tiles_struct))
      | _ \<Rightarrow> False)"

definition demo_opts_hierarchical :: opts where
  "demo_opts_hierarchical =
     demo_opts\<lparr> opt_telescopes := ''ATLAS,ZTF'', doSkymap := True, doTiles := True,
                opt_tilesType := ''hierarchical'' \<rparr>"

text \<open>
  The keys the single-exposure block writes, and the keys \<^verbatim>\<open>params_struct\<close> writes for
  every telescope in either mode.
\<close>

definition single_exposure_keys :: "string set" where
  "single_exposure_keys =
     {''magnitude'', ''exposuretime'', ''magnitude_orig'', ''exposuretime_orig''}"

definition params_struct_keys :: "string set" where
  "params_struct_keys = {''telescope'', ''tesselation'', ''reference_images'', ''observer''}"

text \<open>
  What single-exposure mode makes of the configuration \<open>cfg0\<close> read from a telescope's
  file, with \<open>exposuretime\<close> the first entry of the exposure-times list: \<open>c\<close> is the
  telescope's configuration in \<^verbatim>\<open>params\<close>.
\<close>

definition single_exposed :: "config \<Rightarrow> real \<Rightarrow> config \<Rightarrow> bool" where
  "single_exposed cfg0 exposuretime c \<longleftrightarrow>
     (\<exists>m e. cfg0 ''magnitude'' = Some (Num m) \<and> cfg0 ''exposuretime'' = Some (Num e) \<and>
        c ''exposuretime'' = Some (Num exposuretime) \<and>
        c ''magnitude'' = Some (Num (m + - 2.5 * log 10 (sqrt (e / exposuretime)))) \<and>
        c ''magnitude_orig'' = Some (Num m) \<and>
        c ''exposuretime_orig'' = Some (Num e) \<and>
        (\<forall>k. k \<notin> single_exposure_keys \<union> params_struct_keys \<longrightarrow> c k = cfg0 k))"

definition demo_opts_single :: opts where
  "demo_opts_single =
     demo_opts\<lparr> opt_telescopes := ''ATLAS,ZTF'', doSingleExposure := True,
                opt_exposuretimes := ''120.0,30.0,30.0'' \<rparr>"

section \<open>The core engine, modelled from the spec\<close>

text \<open>
  The tiling, time-allocation and scheduling modules (\<^verbatim>\<open>gwemopt.moc\<close>, \<^verbatim>\<open>gwemopt.tiles\<close>,
  \<^verbatim>\<open>gwemopt.coverage\<close>, \<^verbatim>\<open>gwemopt.scheduler\<close>) are called by the driver but are not among
  the source files. The definitions of this section follow the words of the specification
  (sections 3, 4.1 and 4.3) for the fixed-tessellation tiler and for the scheduler, over
  exact real numbers. The time allocator is not modelled: section 4.2 gives a rounding
  formula and a budget invariant that do not agree, and the allocator's code, which would
  decide between them, is not in the sources.
\<close>

subsection \<open>Fixed-tessellation tiling\<close>

text \<open>
  Modelled from the spec: the data model of section 3, for the tiler of
  \<^verbatim>\<open>gwemopt.moc\<close> and \<^verbatim>\<open>gwemopt.tiles\<close>, which is not in the sources. A grid cell
  \<^verbatim>\<open>{id, ra, dec, solid_angle, probability, distance_pdf?}\<close>; a tile
  \<^verbatim>\<open>{id, center_ra, center_dec, footprint_shape, member_cell_ids, probability_mass,
  assigned_telescope}\<close>; of the telescope profile, the field of view and the precomputed
  tile centres (index, right ascension, declination).
\<close>

record grid_cell =
  cell_id :: nat
  cell_ra :: real
  cell_dec :: real
  solid_angle :: real
  probability :: real
  distance_pdf :: "real option"

datatype footprint = Circle real | Square real

record spec_tile =
  tile_id :: nat
  center_ra :: real
  center_dec :: real
  footprint_shape :: footprint
  member_cell_ids :: "nat set"
  probability_mass :: real
  assigned_telescope :: string

record telescope_profile =
  telescope_id :: string
  field_of_view :: footprint
  tile_centers :: "(nat \<times> real \<times> real) list"

text \<open>
  Modelled from the spec: fixed-tessellation tiling (section 4.1), the tiler of
  \<^verbatim>\<open>gwemopt.moc.create_moc\<close> and \<^verbatim>\<open>gwemopt.tiles.moc\<close>, which is not in the sources.
  "Given a precomputed set of tile centers, compute exact probability mass per tile by
  intersecting each tile's footprint with the grid at the grid's native resolution
  (set membership, not sampling)". The membership test \<open>inside\<close> of a cell in a
  footprint placed at a centre is the spherical geometry, a parameter here. The mass of a
  tile is the sum of the probabilities of its member cells.
\<close>

definition place_tile ::
  "(footprint \<Rightarrow> real \<times> real \<Rightarrow> grid_cell \<Rightarrow> bool) \<Rightarrow> grid_cell list \<Rightarrow> telescope_profile \<Rightarrow>
   nat \<times> real \<times> real \<Rightarrow> spec_tile" where
  "place_tile inside grid profile center =
     (case center of (index, cra, cdec) \<Rightarrow>
        let members = filter (inside (field_of_view profile) (cra, cdec)) grid in
        \<lparr> tile_id = index,
          center_ra = cra,
          center_dec = cdec,
          footprint_shape = field_of_view profile,
          member_cell_ids = set (map cell_id members),
          probability_mass = sum_list (map probability members),
          assigned_telescope = telescope_id profile \<rparr>)"

definition fixed_tessellation ::
  "(footprint \<Rightarrow> real \<times> real \<Rightarrow> grid_cell \<Rightarrow> bool) \<Rightarrow> grid_cell list \<Rightarrow> telescope_profile \<Rightarrow>
   spec_tile list" where
  "fixed_tessellation inside grid profile = map (place_tile inside grid profile) (tile_centers profile)"

text \<open>A flat square footprint of the given side, for concrete runs of the tiler.\<close>

definition demo_inside :: "footprint \<Rightarrow> real \<times> real \<Rightarrow> grid_cell \<Rightarrow> bool" where
  "demo_inside shape center c =
     (case shape of
        Circle r \<Rightarrow> (cell_ra c - fst center)\<^sup>2 + (cell_dec c - snd center)\<^sup>2 \<le> r\<^sup>2
      | Square side \<Rightarrow> \<bar>cell_ra c - fst center\<bar> \<le> side / 2 \<and> \<bar>cell_dec c - snd center\<bar> \<le> side / 2)"

definition demo_cell :: "nat \<Rightarrow> real \<Rightarrow> real \<Rightarrow> real \<Rightarrow> grid_cell" where
  "demo_cell i a d pr =
     \<lparr> cell_id = i, cell_ra = a, cell_dec = d, solid_angle = 1, probability = pr,
       distance_pdf = None \<rparr>"

definition demo_grid :: "grid_cell list" where
  "demo_grid = [demo_cell 0 0 0 (7 / 10), demo_cell 1 1 0 (2 / 10), demo_cell 2 5 5 (1 / 10)]"

definition demo_profile :: telescope_profile where
  "demo_profile =
     \<lparr> telescope_id = ''ATLAS'', field_of_view = Square 3,
       tile_centers = [(0, 0, 0), (1, 5, 5)] \<rparr>"

subsection \<open>Scheduling\<close>

text \<open>
  Modelled from the spec: the data of the scheduler (sections 3 and 4.3), the scheduler of
  \<^verbatim>\<open>gwemopt.scheduler\<close>, which is not in the sources. A tile to schedule carries its
  allocation (the remaining exposure count and the exposure duration) and its
  visibility window for the telescope, the time-ordered intervals \<open>[start, end)\<close>; a
  schedule entry is \<^verbatim>\<open>{telescope_id, tile_id, start_time, end_time, filter}\<close>; the state
  per telescope is \<^verbatim>\<open>{current_time, current_position, remaining_budget}\<close> with the
  candidate queue, the entries emitted, the missed tiles with their reason and the
  reservation table (tile id to telescope id). Of the telescope profile the scheduler
  reads the slew-time model, the filter sequence and the global observing end time.
  The remaining budget counts exposure time, as the allocator's budget does.
\<close>

type_synonym position = "real \<times> real"

type_synonym interval = "real \<times> real"

record sched_tile =
  sd_id :: nat
  sd_center :: position
  sd_mass :: real
  sd_remaining :: nat
  sd_done :: nat
  sd_duration :: real
  sd_window :: "interval list"

record schedule_entry =
  se_telescope :: string
  se_tile :: nat
  se_start :: real
  se_end :: real
  se_filter :: string

datatype missed_reason = WindowClosed | BudgetExhausted | ReservedByOther

record sched_telescope =
  sc_telescope :: string
  slew_time :: "position \<Rightarrow> position \<Rightarrow> real"
  filter_sequence :: "string list"
  alternating :: bool
  observing_end :: real
  exclusive :: bool

record sched_state =
  current_time :: real
  current_position :: position
  remaining_budget :: real
  queue :: "sched_tile list"
  entries :: "schedule_entry list"
  missed :: "(nat \<times> missed_reason) list"
  reservations :: "nat \<rightharpoonup> string"

text \<open>
  Modelled from the spec: step 3 of section 4.3. "If
  \<^verbatim>\<open>current_time + slew + exposure_duration\<close> exceeds the candidate's current visibility
  interval, defer the candidate to its next interval or mark it missed if no further
  interval exists before the global observing end time." \<open>ready\<close> is
  \<^verbatim>\<open>current_time + slew\<close>; the result is the start of the exposure in the first interval
  in which it fits, if there is one: the telescope waits for an interval that has not
  begun (Scenario C of the spec: windows \<open>[0,10)\<close> and \<open>[20,30)\<close> give entries at
  \<open>[0,5)\<close> and \<open>[20,25)\<close>).
\<close>

fun first_fit :: "real \<Rightarrow> real \<Rightarrow> real \<Rightarrow> interval list \<Rightarrow> (real \<times> interval) option" where
  "first_fit ready duration stop [] = None"
| "first_fit ready duration stop ((s, e) # rest) =
     (let start = max ready s in
      if start + duration \<le> e \<and> start + duration \<le> stop then Some (start, (s, e))
      else first_fit ready duration stop rest)"

text \<open>Modelled from the spec: step 2, the slew from the current position, then step 3.\<close>

definition ready_time :: "sched_telescope \<Rightarrow> sched_state \<Rightarrow> sched_tile \<Rightarrow> real" where
  "ready_time pr st t = current_time st + slew_time pr (current_position st) (sd_center t)"

definition fit_of :: "sched_telescope \<Rightarrow> sched_state \<Rightarrow> sched_tile \<Rightarrow> (real \<times> interval) option" where
  "fit_of pr st t =
     first_fit (ready_time pr st t) (sd_duration t) (observing_end pr) (sd_window t)"

text \<open>
  Modelled from the spec: the cross-telescope exclusivity of section 4.3. "A shared
  reservation table maps tile id to telescope id, populated at first scheduling and
  consulted by every telescope's candidate filter before step 1."
\<close>

definition reserved_by_other :: "sched_telescope \<Rightarrow> (nat \<rightharpoonup> string) \<Rightarrow> sched_tile \<Rightarrow> bool" where
  "reserved_by_other pr table t =
     (exclusive pr \<and>
      (case table (sd_id t) of None \<Rightarrow> False | Some owner \<Rightarrow> owner \<noteq> sc_telescope pr))"

text \<open>
  Modelled from the spec: step 1, "select next candidate: default ordering is descending
  tile probability mass". Among the tiles that can be observed without waiting (the
  exposure starts as soon as the slew ends) the one of highest mass is preferred; a tile
  that is ready is preferred to one whose interval has not begun; among the tiles that
  must be waited for, the one whose exposure starts first. Ties go to the higher mass,
  then to the lower id. The optional RA-band pre-sort and observability ordering are not
  modelled.
\<close>

definition starts :: "sched_telescope \<Rightarrow> sched_state \<Rightarrow> sched_tile \<Rightarrow> real" where
  "starts pr st t = (case fit_of pr st t of None \<Rightarrow> 0 | Some (start, iv) \<Rightarrow> start)"

definition heavier :: "sched_tile \<Rightarrow> sched_tile \<Rightarrow> bool" where
  "heavier a b \<longleftrightarrow> sd_mass b < sd_mass a \<or> sd_mass a = sd_mass b \<and> sd_id a < sd_id b"

definition preferred :: "sched_telescope \<Rightarrow> sched_state \<Rightarrow> sched_tile \<Rightarrow> sched_tile \<Rightarrow> bool" where
  "preferred pr st a b =
     (let ready_a = (starts pr st a = ready_time pr st a);
          ready_b = (starts pr st b = ready_time pr st b)
      in if ready_a \<and> ready_b then heavier a b
         else if ready_a then True
         else if ready_b then False
         else starts pr st a < starts pr st b \<or> starts pr st a = starts pr st b \<and> heavier a b)"

fun select_best :: "sched_telescope \<Rightarrow> sched_state \<Rightarrow> sched_tile list \<Rightarrow> sched_tile option" where
  "select_best pr st [] = None"
| "select_best pr st (c # cs) =
     (case select_best pr st cs of
        None \<Rightarrow> Some c
      | Some b \<Rightarrow> if preferred pr st b c then Some b else Some c)"

text \<open>
  Modelled from the spec: step 5, "filter is chosen by cycling through the telescope's
  configured filter sequence (alternating mode) or held fixed"; \<open>k\<close> is the number of
  exposures the tile has had. The cap on filter sets per tile, of which the spec does not
  say how it bounds the choice, is not modelled.
\<close>

definition choose_filter :: "sched_telescope \<Rightarrow> nat \<Rightarrow> string" where
  "choose_filter pr k =
     (case filter_sequence pr of
        [] \<Rightarrow> []
      | f # fs \<Rightarrow> if alternating pr then (f # fs) ! (k mod length (f # fs)) else f)"

text \<open>
  Modelled from the spec: step 4, "emit a ScheduleEntry, advance \<^verbatim>\<open>current_time\<close>, update
  \<^verbatim>\<open>current_position\<close>, decrement remaining exposure count for the tile"; the entry ends
  one exposure duration after its start, and the tile is reserved for the telescope.
\<close>

definition decrement :: "sched_tile \<Rightarrow> sched_tile \<Rightarrow> sched_tile list" where
  "decrement t q =
     (if sd_id q = sd_id t then
        (if sd_remaining q \<le> 1 then []
         else [q\<lparr>sd_remaining := sd_remaining q - 1, sd_done := sd_done q + 1\<rparr>])
      else [q])"

definition emit :: "sched_telescope \<Rightarrow> sched_state \<Rightarrow> sched_tile \<Rightarrow> real \<Rightarrow> sched_state" where
  "emit pr st t start =
     st\<lparr> current_time := start + sd_duration t,
         current_position := sd_center t,
         remaining_budget := remaining_budget st - sd_duration t,
         queue := concat (map (decrement t) (queue st)),
         entries := entries st @
           [\<lparr> se_telescope = sc_telescope pr, se_tile = sd_id t, se_start = start,
              se_end = start + sd_duration t, se_filter = choose_filter pr (sd_done t) \<rparr>],
         reservations := (reservations st)(sd_id t \<mapsto> sc_telescope pr) \<rparr>"

text \<open>
  Modelled from the spec: one round of the loop of section 4.3 and its termination, "a
  telescope's loop ends when its candidate queue is empty or \<^verbatim>\<open>remaining_budget\<close> is
  exhausted"; "unscheduled allocations are recorded as missed with the reason". The
  result is the final state (\<open>Inl\<close>) or the state after one more entry (\<open>Inr\<close>).
\<close>

definition sched_step :: "sched_telescope \<Rightarrow> sched_state \<Rightarrow> sched_state + sched_state" where
  "sched_step pr st =
     (if remaining_budget st \<le> 0 then
        Inl (st\<lparr> missed := missed st @ map (\<lambda>t. (sd_id t, BudgetExhausted)) (queue st),
                 queue := [] \<rparr>)
      else
        let reserved = filter (reserved_by_other pr (reservations st)) (queue st);
            free = filter (\<lambda>t. \<not> reserved_by_other pr (reservations st) t) (queue st);
            closed = filter (\<lambda>t. fit_of pr st t = None) free;
            fitting = filter (\<lambda>t. fit_of pr st t \<noteq> None) free;
            st1 = st\<lparr> missed := missed st @ map (\<lambda>t. (sd_id t, ReservedByOther)) reserved
                                           @ map (\<lambda>t. (sd_id t, WindowClosed)) closed,
                      queue := fitting \<rparr>
        in case select_best pr st fitting of
             None \<Rightarrow> Inl st1
           | Some t \<Rightarrow>
               (case fit_of pr st t of
                  None \<Rightarrow> Inl st1
                | Some (start, iv) \<Rightarrow> Inr (emit pr st1 t start)))"

text \<open>What is left to do: the exposures and the tiles of the queue.\<close>

definition work_left :: "sched_state \<Rightarrow> nat" where
  "work_left st = sum_list (map (\<lambda>q. Suc (sd_remaining q)) (queue st))"

text \<open>
  Modelled from the spec: the loop of a telescope (section 4.3), run until it ends. Every
  round that does not end the loop emits an entry, and the work left decreases.
\<close>

function sched_loop :: "sched_telescope \<Rightarrow> sched_state \<Rightarrow> sched_state" where
  "sched_loop pr st =
     (case sched_step pr st of
        Inl final \<Rightarrow> final
      | Inr st' \<Rightarrow> sched_loop pr st')"
  by pat_completeness auto
termination
proof (relation "measure (\<lambda>(pr, st). work_left st)")
  show "wf (measure (\<lambda>(pr, st). work_left st))" by simp
next
  fix pr :: sched_telescope and st st' :: sched_state
  assume step: "sched_step pr st = Inr st'"
  let ?w = "\<lambda>qs. sum_list (map (\<lambda>q. Suc (sd_remaining q)) qs)"
  have mem: "select_best pr st cs = Some t \<Longrightarrow> t \<in> set cs" for cs t
    by (induction cs arbitrary: t) (auto split: option.splits if_splits)
  have le: "?w (concat (map (decrement t) qs)) \<le> ?w qs" for t and qs :: "sched_tile list"
    by (induction qs) (auto simp: decrement_def)
  have less: "t \<in> set qs \<Longrightarrow> ?w (concat (map (decrement t) qs)) < ?w qs"
    for t and qs :: "sched_tile list"
  proof (induction qs)
    case Nil
    then show ?case by simp
  next
    case (Cons q qs)
    show ?case
    proof (cases "t = q")
      case True
      then have "?w (decrement t q) < Suc (sd_remaining q)" by (simp add: decrement_def)
      with le[of t qs] show ?thesis by simp
    next
      case False
      with Cons have "?w (concat (map (decrement t) qs)) < ?w qs" by simp
      moreover have "?w (decrement t q) \<le> Suc (sd_remaining q)" by (simp add: decrement_def)
      ultimately show ?thesis by simp
    qed
  qed
  have filt: "?w (filter P qs) \<le> ?w qs" for P and qs :: "sched_tile list"
    by (induction qs) auto
  let ?free = "filter (\<lambda>t. \<not> reserved_by_other pr (reservations st) t) (queue st)"
  let ?fitting = "filter (\<lambda>t. fit_of pr st t \<noteq> None) ?free"
  from step obtain t where
    t: "select_best pr st ?fitting = Some t"
    and st': "queue st' = concat (map (decrement t) ?fitting)"
    by (auto simp: sched_step_def Let_def emit_def split: if_splits option.splits)
  from less[OF mem[OF t]] st' have "work_left st' < ?w ?fitting" by (simp add: work_left_def)
  also have "\<dots> \<le> ?w ?free" by (rule filt)
  also have "\<dots> \<le> ?w (queue st)" by (rule filt)
  finally show "((pr, st'), (pr, st)) \<in> measure (\<lambda>(pr, st). work_left st)"
    by (simp add: work_left_def)
qed

text \<open>
  Modelled from the spec: the scheduler for one telescope, from its initial state
  (READY). A tile whose allocation has exposure count 0 "is dropped from scheduling".
\<close>

definition schedule_telescope ::
  "sched_telescope \<Rightarrow> (nat \<rightharpoonup> string) \<Rightarrow> position \<Rightarrow> real \<Rightarrow> real \<Rightarrow> sched_tile list \<Rightarrow> sched_state" where
  "schedule_telescope pr table pos t0 budget tiles =
     sched_loop pr
       \<lparr> current_time = t0, current_position = pos, remaining_budget = budget,
         queue = filter (\<lambda>t. 0 < sd_remaining t) tiles,
         entries = [], missed = [], reservations = table \<rparr>"

text \<open>
  Modelled from the spec: the scheduler over all telescopes. Each telescope has its
  profile, its initial position, time and budget and its tiles with their visibility
  windows for it; the reservation table is handed from one telescope's scheduling to the
  next ("the only cross-telescope shared mutable state"). The coverage plan is the
  "ordered sequence of ScheduleEntry across all telescopes", ordered by start time, "plus
  the set of tiles that could not be scheduled with a reason code".
\<close>

record telescope_job =
  job_profile :: sched_telescope
  job_position :: position
  job_start :: real
  job_budget :: real
  job_tiles :: "sched_tile list"

fun schedule_all :: "(nat \<rightharpoonup> string) \<Rightarrow> telescope_job list \<Rightarrow> sched_state list" where
  "schedule_all table [] = []"
| "schedule_all table (j # js) =
     (let final = schedule_telescope (job_profile j) table (job_position j) (job_start j)
                    (job_budget j) (job_tiles j)
      in final # schedule_all (reservations final) js)"

record coverage_plan =
  cp_entries :: "schedule_entry list"
  cp_missed :: "(nat \<times> missed_reason) list"

definition plan_coverage :: "(nat \<rightharpoonup> string) \<Rightarrow> telescope_job list \<Rightarrow> coverage_plan" where
  "plan_coverage table jobs =
     (let finals = schedule_all table jobs in
      \<lparr> cp_entries = sort_key se_start (concat (map entries finals)),
        cp_missed = concat (map missed finals) \<rparr>)"

text \<open>The entries of a coverage plan for one telescope, in the order of the plan.\<close>

definition entries_of :: "string \<Rightarrow> coverage_plan \<Rightarrow> schedule_entry list" where
  "entries_of telescope plan = filter (\<lambda>e. se_telescope e = telescope) (cp_entries plan)"

text \<open>
  The properties of claim C2, on a list of entries: strictly ordered by start time;
  pairwise not overlapping (an earlier entry ends before a later one starts); an entry
  lies within an interval of the visibility window of its tile, and is as long as the
  tile's exposure.
\<close>

definition strictly_ordered :: "schedule_entry list \<Rightarrow> bool" where
  "strictly_ordered es \<longleftrightarrow> sorted_wrt (\<lambda>a b. se_start a < se_start b) es"

definition non_overlapping :: "schedule_entry list \<Rightarrow> bool" where
  "non_overlapping es \<longleftrightarrow> sorted_wrt (\<lambda>a b. se_end a \<le> se_start b) es"

definition in_window :: "sched_tile list \<Rightarrow> schedule_entry \<Rightarrow> bool" where
  "in_window tiles e \<longleftrightarrow>
     (\<exists>t \<in> set tiles. sd_id t = se_tile e \<and> se_end e - se_start e = sd_duration t \<and>
        (\<exists>iv \<in> set (sd_window t). fst iv \<le> se_start e \<and> se_end e \<le> snd iv))"

text \<open>
  The inputs the scheduler is meant for: slew times are not negative and exposure
  durations are positive.
\<close>

definition well_formed_job :: "telescope_job \<Rightarrow> bool" where
  "well_formed_job j \<longleftrightarrow>
     (\<forall>a b. 0 \<le> slew_time (job_profile j) a b) \<and>
     (\<forall>t \<in> set (job_tiles j). 0 < sd_duration t)"

text \<open>The invariant of a telescope's loop, for its tiles \<open>tiles\<close>.\<close>

definition sched_inv :: "sched_telescope \<Rightarrow> sched_tile list \<Rightarrow> sched_state \<Rightarrow> bool" where
  "sched_inv pr tiles st \<longleftrightarrow>
     non_overlapping (entries st) \<and>
     (\<forall>e \<in> set (entries st).
        se_start e < se_end e \<and> se_end e \<le> current_time st \<and>
        se_telescope e = sc_telescope pr \<and> in_window tiles e) \<and>
     (\<forall>q \<in> set (queue st).
        \<exists>t \<in> set tiles. sd_id t = sd_id q \<and> sd_window t = sd_window q \<and>
          sd_duration t = sd_duration q)"

text \<open>Scenarios C and D of the spec, as inputs of the scheduler.\<close>

definition demo_telescope :: sched_telescope where
  "demo_telescope =
     \<lparr> sc_telescope = ''ATLAS'', slew_time = (\<lambda>a b. 0), filter_sequence = [''r'', ''g''],
       alternating = True, observing_end = 100, exclusive = False \<rparr>"

definition demo_sched_tile :: "nat \<Rightarrow> real \<Rightarrow> real \<Rightarrow> interval list \<Rightarrow> sched_tile" where
  "demo_sched_tile i m d w =
     \<lparr> sd_id = i, sd_center = (0, 0), sd_mass = m, sd_remaining = 1, sd_done = 0,
       sd_duration = d, sd_window = w \<rparr>"

definition demo_job :: telescope_job where
  "demo_job =
     \<lparr> job_profile = demo_telescope, job_position = (0, 0), job_start = 0, job_budget = 60,
       job_tiles = [demo_sched_tile 0 (3 / 10) 5 [(20, 30)], demo_sched_tile 1 (7 / 10) 5 [(0, 10)]] \<rparr>"


section \<open>Every event of a run stands behind its guards\<close>

lemma parse_floats_length: "parse_floats pf ss = Inr xs \<Longrightarrow> length xs = length ss"
  by (induction ss arbitrary: xs) (auto split: option.splits sum.splits)

lemma split_comma_nonempty: "split_comma s \<noteq> []"
  by (induction s) (auto split: list.splits)

lemma ensures_Cont: "list_all P ev \<Longrightarrow> Q a \<Longrightarrow> ensures P Q tr (Cont a (tr @ ev))"
  by (simp add: ensures_def)

lemma ensures_Cont0: "Q a \<Longrightarrow> ensures P Q tr (Cont a tr)"
  by (simp add: ensures_def)

lemma ensures_Stop: "list_all P ev \<Longrightarrow> ensures P Q tr (Stop h (tr @ ev))"
  by (simp add: ensures_def)

lemma ensures_Stop0: "ensures P Q tr (Stop h tr)"
  by (simp add: ensures_def)

lemma ensures_bind:
  assumes "ensures P Q tr r" and "\<And>a tr'. Q a \<Longrightarrow> ensures P R tr' (f a tr')"
  shows "ensures P R tr (bind r f)"
proof (cases r)
  case (Cont a tr')
  with assms(1) obtain ev where ev: "tr' = tr @ ev" "list_all P ev" and q: "Q a"
    by (auto simp: ensures_def)
  from assms(2)[OF q, of tr'] obtain ev' where
    ev': "trace_of (f a tr') = tr' @ ev'" "list_all P ev'"
    and post: "(case f a tr' of Cont b t \<Rightarrow> R b | Stop h t \<Rightarrow> True)"
    by (auto simp: ensures_def)
  from ev ev' have "trace_of (f a tr') = tr @ (ev @ ev')" "list_all P (ev @ ev')" by simp_all
  with post Cont show ?thesis unfolding ensures_def bind_def by auto
next
  case (Stop h tr')
  with assms(1) show ?thesis by (auto simp: ensures_def bind_def)
qed

lemma ensures_weaken:
  assumes "ensures P Q tr r" and "\<And>e. P e \<Longrightarrow> P' e" and "\<And>a. Q a \<Longrightarrow> Q' a"
  shows "ensures P' Q' tr r"
  using assms unfolding ensures_def list_all_iff by (auto split: res.splits)


lemma ensures_case_sum:
  assumes "\<And>e. x = Inl e \<Longrightarrow> ensures P Q tr (f e)" and "\<And>v. x = Inr v \<Longrightarrow> ensures P Q tr (g v)"
  shows "ensures P Q tr (case x of Inl e \<Rightarrow> f e | Inr v \<Rightarrow> g v)"
  using assms by (cases x) auto

lemma single_exposure_step_ensures:
  "ensures P (\<lambda>c. True) tr (single_exposure_step en op cfg tr)"
  by (auto simp: pre_guarded_def single_exposure_step_def ensures_def split: sum.splits list.splits)

lemma tesselation_step_ensures:
  "t \<in> set (split_comma (opt_telescopes op)) \<Longrightarrow>
   ensures (pre_guarded en op) (\<lambda>c. True) tr (tesselation_step en op t cfg tr)"
  by (auto simp: pre_guarded_def tesselation_step_def ensures_def bind_def split: option.splits cval.splits)

lemma reference_step_ensures:
  "ensures (pre_guarded en op) (\<lambda>c. True) tr (reference_step en cfg tr)"
  by (auto simp: pre_guarded_def reference_step_def ensures_def split: option.splits cval.splits)

lemma observer_step_ensures:
  "ensures P (\<lambda>c. True) tr (observer_step cfg tr)"
  by (auto simp: pre_guarded_def observer_step_def ensures_def split: option.splits)

lemma config_telescope_ensures:
  assumes "t \<in> set (split_comma (opt_telescopes op))"
  shows "ensures (pre_guarded en op) (\<lambda>c. True) tr (config_telescope en op t tr)"
proof (cases "readParamsFromFile en t")
  case None
  then show ?thesis using assms
    by (simp add: pre_guarded_def config_telescope_def ensures_def)
next
  case (Some cfg0)
  have a: "ensures (pre_guarded en op) (\<lambda>c. True) tr
             (single_exposure_step en op (cfg0(''telescope'' \<mapsto> Str t)) (tr @ [ReadParamsFromFile t]))"
    using assms
    by (auto simp: pre_guarded_def single_exposure_step_def ensures_def split: sum.splits list.splits)
  show ?thesis
    unfolding config_telescope_def Some option.case
    by (intro ensures_bind[OF a] ensures_bind[OF tesselation_step_ensures[OF assms]]
          ensures_bind[OF reference_step_ensures] observer_step_ensures)
qed

lemma config_loop_ensures:
  "set ts \<subseteq> set (split_comma (opt_telescopes op)) \<Longrightarrow>
   ensures (pre_guarded en op) (\<lambda>cfgs. dom cfgs0 \<union> set ts \<subseteq> dom cfgs) tr (config_loop en op ts cfgs0 tr)"
proof (induction ts arbitrary: cfgs0 tr)
  case Nil
  then show ?case by (simp add: ensures_def)
next
  case (Cons t ts)
  have t: "t \<in> set (split_comma (opt_telescopes op))" and ts: "set ts \<subseteq> set (split_comma (opt_telescopes op))"
    using Cons.prems by auto
  have eq: "config_loop en op (t # ts) cfgs0 tr =
        bind (config_telescope en op t tr) (\<lambda>cfg tr'. config_loop en op ts (cfgs0(t \<mapsto> cfg)) tr')"
    by (simp add: pre_guarded_def bind_def split: res.splits)
  show ?case unfolding eq
  proof (rule ensures_bind[OF config_telescope_ensures[OF t]])
    fix cfg tr'
    show "ensures (pre_guarded en op) (\<lambda>cfgs. dom cfgs0 \<union> set (t # ts) \<subseteq> dom cfgs) tr'
            (config_loop en op ts (cfgs0(t \<mapsto> cfg)) tr')"
    proof (rule ensures_weaken[OF Cons.IH[OF ts, of "cfgs0(t \<mapsto> cfg)" tr']])
      fix cfgs :: "string \<rightharpoonup> config"
      assume "dom (cfgs0(t \<mapsto> cfg)) \<union> set ts \<subseteq> dom cfgs"
      then have "insert t (dom cfgs0) \<union> set ts \<subseteq> dom cfgs" by simp
      then show "dom cfgs0 \<union> set (t # ts) \<subseteq> dom cfgs" by auto
    qed simp
  qed
qed

lemma params_struct_ensures:
  "ensures (pre_guarded en op) (params_inv op) tr (params_struct en op tr)"
  unfolding params_struct_def
  by (rule ensures_bind[OF config_loop_ensures[OF subset_refl]])
     (auto simp: pre_guarded_def ensures_def params_inv_def parse_floats_length split: sum.splits)


lemma ensures_prefix:
  "list_all P tr0 \<Longrightarrow> ensures P Q tr0 r \<Longrightarrow> ensures P Q [] r"
  by (auto simp: pre_guarded_def ensures_def)

lemma ensures_trace:
  "ensures P Q [] r \<Longrightarrow> e \<in> set (trace_of r) \<Longrightarrow> P e"
  by (auto simp: pre_guarded_def ensures_def list_all_iff)

lemma check_filters_ensures:
  "params_inv op p \<Longrightarrow> ensures (pre_guarded en op) (checked op) tr (check_filters (init_state p) tr)"
  by (auto simp: pre_guarded_def check_filters_def init_state_def ensures_def checked_def params_inv_def lengths_match_def)

lemma select_load_ensures:
  "checked op st \<Longrightarrow>
   ensures (pre_guarded en op) (loaded op) tr (bind (select_skymap en op st tr) (load_skymap op))"
  by (auto simp: pre_guarded_def select_skymap_def load_skymap_def bind_def ensures_def checked_def loaded_def
      params_inv_def source_enabled_def)

lemma pre_observability_ensures:
  "ensures (pre_guarded en op) (loaded op) [] (pre_observability en op)"
proof -
  have "ensures (pre_guarded en op) (loaded op) (if isdir_outputDir en then [] else [MakeDirs])
          (pre_observability en op)"
    unfolding pre_observability_def
    by (intro ensures_bind[OF params_struct_ensures] ensures_bind[OF check_filters_ensures]
          select_load_ensures)
  then show ?thesis by (rule ensures_prefix[rotated]) (simp add: pre_guarded_def)
qed

lemma observability_exit_loop_ensures:
  assumes "source_enabled op" "doObservability op" "doObservabilityExit op"
    and "doTrueLocation p = opt_doTrueLocation op"
  shows "set ts \<subseteq> set (split_comma (opt_telescopes op)) \<Longrightarrow>
     ensures (pre_guarded en op) (\<lambda>u. list_all (observable en op) ts) tr
       (observability_exit_loop en op p ts tr)"
proof (induction ts)
  case Nil
  then show ?case by (simp add: ensures_def)
next
  case (Cons t ts)
  then have IH: "ensures (pre_guarded en op) (\<lambda>u. list_all (observable en op) ts) tr
       (observability_exit_loop en op p ts tr)" by simp
  show ?case
  proof (cases "observability_prob en t")
    case None
    then show ?thesis by (simp add: pre_guarded_def ensures_def)
  next
    case (Some prob)
    show ?thesis
    proof (cases "sum_list prob < observability_thresh op")
      case True
      with Some assms Cons.prems show ?thesis
        by (auto simp: pre_guarded_def ensures_def below_threshold_def list_all_iff)
    next
      case False
      with Some have "observable en op t" by (simp add: pre_guarded_def observable_def)
      with IH False Some show ?thesis
        by (auto simp: ensures_def split: res.splits)
    qed
  qed
qed

lemma observability_stage_ensures:
  assumes "loaded op st"
  shows "ensures (pre_guarded en op) (observed en op) tr (observability_stage en op st tr)"
proof (cases "doObservability op \<and> doObservabilityExit op")
  case False
  with assms show ?thesis
    by (auto simp: pre_guarded_def observability_stage_def ensures_def observed_def loaded_def
        observability_passed_def Let_def)
next
  case True
  from assms have pi: "params_inv op (v_params st)" and se: "source_enabled op"
    by (simp_all add: loaded_def)
  let ?tr1 = "tr @ [Observability] @ (if doPlots op then [PlotObservability] else [])"
  have loop: "ensures (pre_guarded en op) (\<lambda>u. list_all (observable en op) (telescopes (v_params st))) ?tr1
       (observability_exit_loop en op (v_params st) (telescopes (v_params st)) ?tr1)"
    using pi se True
    by (intro observability_exit_loop_ensures) (auto simp: pre_guarded_def params_inv_def)
  have eq: "observability_stage en op st tr =
      bind (observability_exit_loop en op (v_params st) (telescopes (v_params st)) ?tr1)
        (\<lambda>u tr2. Cont st tr2)"
    using True by (simp add: pre_guarded_def observability_stage_def bind_def Let_def split: res.splits)
  have "ensures (pre_guarded en op) (observed en op) ?tr1 (observability_stage en op st tr)"
    unfolding eq
  proof (rule ensures_bind[OF loop])
    fix u tr'
    assume "list_all (observable en op) (telescopes (v_params st))"
    with assms pi show "ensures (pre_guarded en op) (observed en op) tr' (Cont st tr')"
      by (simp add: pre_guarded_def ensures_def observed_def observability_passed_def loaded_def params_inv_def)
  qed
  then obtain ev where ev: "trace_of (observability_stage en op st tr) = ?tr1 @ ev"
      "list_all (pre_guarded en op) ev"
    and post: "(case observability_stage en op st tr of Cont a t \<Rightarrow> observed en op a | Stop h t \<Rightarrow> True)"
    by (auto simp: pre_guarded_def ensures_def)
  have "trace_of (observability_stage en op st tr)
        = tr @ (([Observability] @ (if doPlots op then [PlotObservability] else [])) @ ev)"
    using ev(1) by simp
  moreover have "list_all (pre_guarded en op) (([Observability] @ (if doPlots op then [PlotObservability] else [])) @ ev)"
    using ev(2) se True by (simp add: pre_guarded_def)
  ultimately show ?thesis using post unfolding ensures_def by blast
qed

lemma samples_split_ensures:
  "observed en op st \<Longrightarrow> ensures (pre_guarded en op) (observed en op) tr (samples_split op st tr)"
  by (auto simp: pre_guarded_def samples_split_def ensures_def observed_def)

lemma pre_tiles_ensures:
  "ensures (pre_guarded en op) (observed en op) [] (pre_tiles en op)"
  unfolding pre_tiles_def
  by (intro ensures_bind[OF pre_observability_ensures] ensures_bind[OF observability_stage_ensures]
        samples_split_ensures)


lemma tiles_dispatch_ensures:
  assumes "observed en op st" "doTiles op"
  shows "ensures (tiles_guarded en op)
           (\<lambda>st'. tiles_passed en op \<and> v_tile_structs st' \<noteq> None \<and>
                  moc_structs st' = (opt_tilesType op = ''moc'' \<or> opt_tilesType op = ''ranked''))
           tr (tiles_dispatch en st tr)"
proof -
  from assms have tt: "tilesType (v_params st) = opt_tilesType op"
    and cat: "catalog_struct st = doCatalog op" and nm: "\<not> moc_structs st"
    and ob: "observability_passed en op"
    by (simp_all add: observed_def loaded_def params_inv_def)
  show ?thesis
    using tt cat nm ob assms(2)
    by (auto simp: tiles_dispatch_def ensures_def Let_def tiles_passed_def strategy_of_tag_def
        tiles_guarded_def split: sum.splits)
qed

lemma tiles_stage_ensures:
  assumes "observed en op st"
  shows "ensures (tiles_guarded en op) (tiled en op) tr (tiles_stage en op st tr)"
proof (cases "doTiles op")
  case False
  with assms show ?thesis
    by (auto simp: tiles_stage_def ensures_def tiled_def tiles_passed_def observed_def loaded_def)
next
  case True
  have "ensures (tiles_guarded en op) (tiled en op) tr
     (bind (tiles_dispatch en st tr)
          (\<lambda>st1 tr1. Cont st1 (tr1 @ (if doPlots op then [PlotTiles] else []))))"
    by (rule ensures_bind[OF tiles_dispatch_ensures[OF assms True]])
       (use True in \<open>auto simp: ensures_def tiled_def tiles_guarded_def\<close>)
  with True show ?thesis by (simp add: tiles_stage_def)
qed

lemma post_tiles_ensures:
  assumes "tiled en op st"
  shows "ensures (post_guarded en op) (\<lambda>st'. True) tr (post_tiles en op st tr)"
proof -
  from assms have se: "source_enabled op"
    by (simp add: tiled_def tiles_passed_def observability_passed_def)
  show ?thesis
    using assms se
    by (auto simp: post_tiles_def schedule_stage_def summary_stage_def efficiency_stage_def
      bind_def ensures_def tiled_def coverage_passed_def Let_def list_all_iff post_guarded_def
      split: option.splits)
qed

lemma ensures_guarded:
  assumes "ensures P Q tr r" and "\<And>e. P e \<Longrightarrow> guarded en op e"
  shows "ensures (guarded en op) Q tr r"
  using assms by (rule ensures_weaken)

lemma run_ensures: "ensures (guarded en op) (\<lambda>st. True) [] (run en op)"
  unfolding run_def
proof (rule ensures_bind)
  show "ensures (guarded en op) (observed en op) [] (pre_tiles en op)"
    by (rule ensures_guarded[OF pre_tiles_ensures]) (simp add: pre_guarded_def)
next
  fix st tr
  assume ob: "observed en op st"
  show "ensures (guarded en op) (\<lambda>st. True) tr (bind (tiles_stage en op st tr) (post_tiles en op))"
  proof (rule ensures_bind)
    show "ensures (guarded en op) (tiled en op) tr (tiles_stage en op st tr)"
      by (rule ensures_guarded[OF tiles_stage_ensures[OF ob]]) (simp add: tiles_guarded_def)
  next
    fix st' tr'
    assume "tiled en op st'"
    then show "ensures (guarded en op) (\<lambda>st. True) tr' (post_tiles en op st' tr')"
      by (rule ensures_guarded[OF post_tiles_ensures]) (simp add: post_guarded_def)
  qed
qed

lemma run_events_guarded: "e \<in> set (trace_of (run en op)) \<Longrightarrow> guarded en op e"
  by (rule ensures_trace[OF run_ensures])

section \<open>The anatomy of a run\<close>

lemma stopped_bind:
  "stopped (bind r f) = (stopped r \<or> (\<exists>a tr. r = Cont a tr \<and> stopped (f a tr)))"
  by (cases r) (simp_all add: bind_def)

lemma ensures_ContD:
  "ensures P Q tr0 r \<Longrightarrow> r = Cont a tr \<Longrightarrow> Q a \<and> (\<exists>ev. tr = tr0 @ ev \<and> list_all P ev)"
  by (auto simp: ensures_def)

lemma ensures_StopD:
  "ensures P Q tr0 r \<Longrightarrow> r = Stop h tr \<Longrightarrow> (\<exists>ev. tr = tr0 @ ev \<and> list_all P ev)"
  by (auto simp: ensures_def)

lemma ensures_stopped:
  "ensures P Q tr r \<Longrightarrow> (\<And>a. \<not> Q a) \<Longrightarrow> stopped r"
  by (cases r) (auto simp: ensures_def)

lemma run_cases [case_names pre_stop tiles_stop post]:
  obtains h tr where "pre_tiles en op = Stop h tr" "run en op = Stop h tr"
  | st tr h tr' where "pre_tiles en op = Cont st tr" "tiles_stage en op st tr = Stop h tr'"
      "run en op = Stop h tr'"
  | st tr st' tr' where "pre_tiles en op = Cont st tr" "tiles_stage en op st tr = Cont st' tr'"
      "run en op = post_tiles en op st' tr'"
proof (cases "pre_tiles en op")
  case (Stop h tr)
  then have "run en op = Stop h tr" by (simp add: run_def bind_def)
  with Stop show ?thesis using that(1) by blast
next
  case (Cont st tr)
  show ?thesis
  proof (cases "tiles_stage en op st tr")
    case (Stop h tr')
    with Cont have "run en op = Stop h tr'" by (simp add: run_def bind_def)
    with Cont Stop show ?thesis using that(2) by blast
  next
    case c2: (Cont st' tr')
    with Cont have "run en op = post_tiles en op st' tr'" by (simp add: run_def bind_def)
    with Cont c2 show ?thesis using that(3) by blast
  qed
qed

lemma pre_tiles_stopped:
  "stopped (pre_observability en op) \<Longrightarrow> stopped (pre_tiles en op)"
  by (simp add: pre_tiles_def stopped_bind)

lemma run_stopped_pre: "stopped (pre_tiles en op) \<Longrightarrow> stopped (run en op)"
  by (simp add: run_def stopped_bind)

lemma mismatch_guarded:
  "\<not> lengths_match op \<Longrightarrow> guarded en op e \<Longrightarrow> setup_event e \<or> print_event e"
  by (cases e)
     (simp_all add: source_enabled_def observability_passed_def tiles_passed_def coverage_passed_def)

lemma setup_or_print_early:
  "setup_event e \<or> print_event e \<Longrightarrow> \<not> tiling_event e \<and> \<not> coverage_event e \<and> \<not> efficiency_event e"
  by (cases e) simp_all

lemmas run_defs = run_def pre_tiles_def pre_observability_def post_tiles_def params_struct_def
  config_telescope_def single_exposure_step_def tesselation_step_def reference_step_def observer_step_def
  time_option_def check_filters_def init_state_def select_skymap_def load_skymap_def
  observability_stage_def samples_split_def tiles_stage_def tiles_dispatch_def schedule_stage_def
  summary_stage_def efficiency_stage_def bind_def

lemmas demo_defs = demo_env_def demo_opts_def demo_config_def demo_tiles_def demo_parse_float_def

section \<open>Claims about the driver\<close>

text \<open>
  Claim C3. For every input in which the number of entries in the filters list differs
  from the number of entries in the exposure-times list, the run is rejected before any
  tiling executes: the program terminates, and no tiling, allocation or scheduling is
  executed, not even in part. The run stops (at \<^verbatim>\<open>exit(0)\<close> of line 492, or earlier at an
  exception of \<^verbatim>\<open>params_struct\<close>); every event of its trace belongs to
  \<^verbatim>\<open>params_struct\<close> or is a print; and when \<^verbatim>\<open>params_struct\<close> returns, the run is
  exactly its trace, the message of line 491 and \<^verbatim>\<open>exit(0)\<close>.
\<close>

theorem mismatched_lists_rejected:
  assumes "length (split_comma (opt_filters op)) \<noteq> length (split_comma (opt_exposuretimes op))"
  shows "stopped (run en op) \<and>
         (\<forall>e \<in> set (trace_of (run en op)).
            (setup_event e \<or> print_event e) \<and>
            \<not> tiling_event e \<and> \<not> coverage_event e \<and> \<not> efficiency_event e) \<and>
         (\<forall>p tr. params_struct en op (if isdir_outputDir en then [] else [MakeDirs]) = Cont p tr \<longrightarrow>
            run en op = Stop Exit0
              (tr @ [Print ''The number of filters specified must match the number of exposure times.'']))"
proof (intro conjI ballI allI impI)
  from assms have nm: "\<not> lengths_match op" by (simp add: lengths_match_def)
  have "stopped (pre_observability en op)"
    by (rule ensures_stopped[OF pre_observability_ensures])
       (use nm in \<open>simp add: loaded_def source_enabled_def\<close>)
  then show "stopped (run en op)" by (intro run_stopped_pre pre_tiles_stopped)
  {
    fix e assume "e \<in> set (trace_of (run en op))"
    then have "guarded en op e" by (rule run_events_guarded)
    with nm show sp: "setup_event e \<or> print_event e" by (rule mismatch_guarded)
    then show "\<not> tiling_event e" "\<not> coverage_event e" "\<not> efficiency_event e"
      using setup_or_print_early by blast+
  }
  fix p tr
  assume ps: "params_struct en op (if isdir_outputDir en then [] else [MakeDirs]) = Cont p tr"
  from ensures_ContD[OF params_struct_ensures ps] have "params_inv op p" by simp
  with nm have "length (filters p) \<noteq> length (exposuretimes p)"
    by (simp add: params_inv_def lengths_match_def)
  then show "run en op = Stop Exit0
        (tr @ [Print ''The number of filters specified must match the number of exposure times.''])"
    using ps
    by (simp add: run_def pre_tiles_def pre_observability_def bind_def check_filters_def init_state_def)
qed

theorem mismatched_lists_rejected_witness:
  "length (split_comma (opt_filters (demo_opts\<lparr>opt_filters := ''r,g''\<rparr>))) = 2 \<and>
   length (split_comma (opt_exposuretimes (demo_opts\<lparr>opt_filters := ''r,g''\<rparr>))) = 3 \<and>
   stopped (run demo_env (demo_opts\<lparr>opt_filters := ''r,g''\<rparr>)) \<and>
   run demo_env (demo_opts\<lparr>opt_filters := ''r,g''\<rparr>) =
     Stop Exit0 [ReadParamsFromFile ''ATLAS'', LoadTxt ''demo.tess'',
       Print ''The number of filters specified must match the number of exposure times.'']"
proof -
  have h: "length (split_comma (opt_filters (demo_opts\<lparr>opt_filters := ''r,g''\<rparr>)))
           \<noteq> length (split_comma (opt_exposuretimes (demo_opts\<lparr>opt_filters := ''r,g''\<rparr>)))"
    by (simp add: demo_opts_def)
  have p: "params_struct demo_env (demo_opts\<lparr>opt_filters := ''r,g''\<rparr>)
             (if isdir_outputDir demo_env then [] else [MakeDirs])
           = Cont \<lparr> config = [''ATLAS'' \<mapsto> demo_config(''telescope'' \<mapsto> Str ''ATLAS'',
                      ''tesselation'' \<mapsto> Tess [[0, 0, 0]],
                      ''observer'' \<mapsto> Observer (Num (- 155)) (Num 20) (Num 3000))],
                  telescopes = [''ATLAS''], filters = [''r'', ''g''],
                  exposuretimes = [30, 30, 30], Tobs = [0, 1], raslice = [0, 24],
                  max_nb_tiles = [- 1, - 1, - 1], tilesType = ''moc'',
                  Ntiles = NtilesInt 10, skymap = UserSkymap ''skymap.fits'',
                  gpstime = 1167559936, lightcurveFiles = [''lightcurve.dat''],
                  doTrueLocation = False, start_time = NowMinusDay, end_time = Now \<rparr>
               [ReadParamsFromFile ''ATLAS'', LoadTxt ''demo.tess'']"
    by (simp add: run_defs demo_defs)
  from mismatched_lists_rejected[OF h, of demo_env] p show ?thesis
    by (simp add: demo_opts_def)
qed

section \<open>Stage lemmas for the claims\<close>

lemma strategies_run_Nil [simp]: "strategies_run [] = []"
  by (simp add: strategies_run_def)

lemma strategies_run_Cons [simp]:
  "strategies_run (e # tr) =
     (case strategy_of_event e of None \<Rightarrow> strategies_run tr | Some s \<Rightarrow> s # strategies_run tr)"
  unfolding strategies_run_def by simp

lemma strategies_run_append [simp]:
  "strategies_run (a @ b) = strategies_run a @ strategies_run b"
  by (induction a) (simp_all split: option.splits)

lemma strategy_is_tiling: "strategy_of_event e = Some s \<Longrightarrow> tiling_event e"
  by (cases e) simp_all

lemma no_tiling_no_strategy:
  "list_all (\<lambda>e. \<not> tiling_event e) ev \<Longrightarrow> strategies_run ev = []"
proof (induction ev)
  case Nil
  then show ?case by simp
next
  case (Cons e ev)
  then have "strategy_of_event e = None"
    using strategy_is_tiling[of e] by (cases "strategy_of_event e") auto
  with Cons show ?case by simp
qed

lemma pre_guarded_no_strategy:
  "list_all (pre_guarded en op) ev \<Longrightarrow> strategies_run ev = []"
  by (rule no_tiling_no_strategy) (simp add: list_all_iff pre_guarded_def)

lemma post_guarded_no_strategy:
  "list_all (post_guarded en op) ev \<Longrightarrow> strategies_run ev = []"
  by (rule no_tiling_no_strategy) (simp add: list_all_iff post_guarded_def)

lemma pre_tiles_Cont:
  assumes "pre_tiles en op = Cont st tr"
  shows "observed en op st" and "list_all (pre_guarded en op) tr"
  using ensures_ContD[OF pre_tiles_ensures assms] by auto

lemma pre_tiles_Stop:
  assumes "pre_tiles en op = Stop h tr"
  shows "list_all (pre_guarded en op) tr"
  using ensures_StopD[OF pre_tiles_ensures assms] by auto

lemma post_tiles_trace:
  assumes "tiled en op st"
  shows "\<exists>ev. trace_of (post_tiles en op st tr) = tr @ ev \<and> list_all (post_guarded en op) ev"
  using post_tiles_ensures[OF assms, of tr] by (simp add: ensures_def)

text \<open>What the tiling stage appends when it continues: one strategy, the selected one.\<close>

lemma tiles_stage_Cont:
  assumes "observed en op st" "doTiles op" "tiles_stage en op st tr = Cont st' tr'"
  shows "\<exists>s ev. strategy_of_tag (opt_tilesType op) = Some s \<and> tr' = tr @ ev \<and>
           strategies_run ev = [s] \<and> list_all tiling_event ev"
proof -
  from assms(1) have tt: "tilesType (v_params st) = opt_tilesType op"
    by (simp add: observed_def loaded_def params_inv_def)
  show ?thesis
    using assms(2,3) tt
    by (auto simp: tiles_stage_def tiles_dispatch_def bind_def Let_def strategy_of_tag_def
        split: if_splits sum.splits)
qed

lemma tiles_stage_Stop:
  assumes "observed en op st" "tiles_stage en op st tr = Stop h tr'"
  shows "\<exists>ev. tr' = tr @ ev \<and> list_all (\<lambda>e. \<not> coverage_event e \<and> \<not> efficiency_event e) ev"
  using assms(2)
  by (auto simp: tiles_stage_def tiles_dispatch_def bind_def Let_def
      split: if_splits sum.splits)

lemma tiles_stage_skip: "\<not> doTiles op \<Longrightarrow> tiles_stage en op st tr = Cont st tr"
  by (simp add: tiles_stage_def)

lemma pre_guarded_not_coverage:
  "list_all (pre_guarded en op) tr \<Longrightarrow> e \<in> set tr \<Longrightarrow> \<not> coverage_event e"
  by (auto simp: list_all_iff pre_guarded_def)

text \<open>The schedule stage appends the time allocation first, if at all.\<close>

lemma post_tiles_TimeAllocation:
  assumes "TimeAllocation \<in> set (trace_of (post_tiles en op st tr))" "TimeAllocation \<notin> set tr"
  shows "\<exists>tr2. trace_of (post_tiles en op st tr) = tr @ TimeAllocation # tr2"
  using assms
  by (auto simp: post_tiles_def schedule_stage_def summary_stage_def efficiency_stage_def
      bind_def Let_def split: if_splits option.splits)

text \<open>
  Claim C8. For every run in which scheduling is requested but tiling is not enabled, the
  program terminates without computing any coverage plan: time allocation and scheduling
  run only when tiling has produced tile structures in the same run. With
  \<^verbatim>\<open>--doSchedule\<close> and without \<^verbatim>\<open>--doTiles\<close> the run stops, no time allocation, coverage
  reading, summary or coverage plot is in its trace, and when the run reaches line 634 it
  ends there with the message of line 641 and \<^verbatim>\<open>exit(0)\<close>. In any run, a time allocation
  in the trace has tiling enabled and exactly one tiling strategy, the selected one,
  before it.
\<close>

theorem schedule_requires_tiles:
  "(doSchedule op \<and> \<not> doTiles op \<longrightarrow>
      stopped (run en op) \<and>
      (\<forall>e \<in> set (trace_of (run en op)). \<not> coverage_event e) \<and>
      (\<forall>st tr. pre_tiles en op = Cont st tr \<longrightarrow>
         run en op = Stop Exit0 (tr @ [Print ''Need to enable --doTiles to use --doSchedule'']))) \<and>
   (TimeAllocation \<in> set (trace_of (run en op)) \<longrightarrow>
      doTiles op \<and>
      (\<exists>tr1 tr2 s. trace_of (run en op) = tr1 @ TimeAllocation # tr2 \<and>
         strategy_of_tag (opt_tilesType op) = Some s \<and> strategies_run tr1 = [s]))"
proof (intro conjI impI)
  assume a: "doSchedule op \<and> \<not> doTiles op"
  have exact: "run en op = Stop Exit0 (tr @ [Print ''Need to enable --doTiles to use --doSchedule''])"
    if "pre_tiles en op = Cont st tr" for st tr
    using that a by (simp add: run_def bind_def tiles_stage_def post_tiles_def schedule_stage_def)
  show "stopped (run en op)"
  proof (cases "pre_tiles en op")
    case (Cont st tr)
    from exact[OF this] show ?thesis by simp
  next
    case (Stop h tr)
    then show ?thesis by (simp add: run_def bind_def)
  qed
  show "\<forall>e \<in> set (trace_of (run en op)). \<not> coverage_event e"
  proof
    fix e assume "e \<in> set (trace_of (run en op))"
    then have "guarded en op e" by (rule run_events_guarded)
    with a show "\<not> coverage_event e"
      by (cases e) (auto simp: coverage_passed_def)
  qed
  show "\<forall>st tr. pre_tiles en op = Cont st tr \<longrightarrow>
         run en op = Stop Exit0 (tr @ [Print ''Need to enable --doTiles to use --doSchedule''])"
    using exact by blast
next
  assume ta: "TimeAllocation \<in> set (trace_of (run en op))"
  from run_events_guarded[OF ta] show dt: "doTiles op" by simp
  show "\<exists>tr1 tr2 s. trace_of (run en op) = tr1 @ TimeAllocation # tr2 \<and>
         strategy_of_tag (opt_tilesType op) = Some s \<and> strategies_run tr1 = [s]"
  proof (cases rule: run_cases[of en op])
    case (pre_stop h tr)
    with ta pre_guarded_not_coverage[OF pre_tiles_Stop[OF pre_stop(1)], of TimeAllocation]
    show ?thesis by simp
  next
    case (tiles_stop st tr h tr')
    from tiles_stage_Stop[OF pre_tiles_Cont(1)[OF tiles_stop(1)] tiles_stop(2)]
    obtain ev where ev: "tr' = tr @ ev" "list_all (\<lambda>e. \<not> coverage_event e \<and> \<not> efficiency_event e) ev"
      by blast
    with ta tiles_stop(3) pre_guarded_not_coverage[OF pre_tiles_Cont(2)[OF tiles_stop(1)], of TimeAllocation]
    show ?thesis by (auto simp: list_all_iff)
  next
    case (post st tr st' tr')
    note ob = pre_tiles_Cont[OF post(1)]
    from tiles_stage_Cont[OF ob(1) dt post(2)] obtain s ev where
      s: "strategy_of_tag (opt_tilesType op) = Some s" and ev: "tr' = tr @ ev"
      "strategies_run ev = [s]" "list_all tiling_event ev"
      by blast
    have "TimeAllocation \<notin> set tr"
      using pre_guarded_not_coverage[OF ob(2), of TimeAllocation] by auto
    moreover have "TimeAllocation \<notin> set ev"
      using ev(3) by (auto simp: list_all_iff)
    ultimately have "TimeAllocation \<notin> set tr'" using ev(1) by simp
    with post_tiles_TimeAllocation[of en op st' tr'] ta post(3)
    obtain tr2 where "trace_of (run en op) = tr' @ TimeAllocation # tr2" by auto
    moreover have "strategies_run tr' = [s]"
      using ev pre_guarded_no_strategy[OF ob(2)] by simp
    ultimately show ?thesis using s by blast
  qed
qed

theorem schedule_requires_tiles_witness:
  "run demo_env (demo_opts\<lparr>doSkymap := True, doSchedule := True\<rparr>) =
     Stop Exit0 [ReadParamsFromFile ''ATLAS'', LoadTxt ''demo.tess'', GetTelescopeSegments,
       ReadSkymap False, Print ''Need to enable --doTiles to use --doSchedule''] \<and>
   (\<exists>tr1 tr2. trace_of (run demo_env (demo_opts\<lparr>doSkymap := True, doTiles := True, doSchedule := True\<rparr>))
       = tr1 @ TimeAllocation # tr2 \<and> strategies_run tr1 = [Moc])"
proof -
  let ?o1 = "demo_opts\<lparr>doSkymap := True, doSchedule := True\<rparr>"
  let ?o2 = "demo_opts\<lparr>doSkymap := True, doTiles := True, doSchedule := True\<rparr>"
  have p1: "\<exists>st. pre_tiles demo_env ?o1 = Cont st [ReadParamsFromFile ''ATLAS'', LoadTxt ''demo.tess'',
      GetTelescopeSegments, ReadSkymap False]"
    by (simp add: run_defs demo_defs)
  have f1: "doSchedule ?o1 \<and> \<not> doTiles ?o1" by (simp add: demo_opts_def)
  have t2: "TimeAllocation \<in> set (trace_of (run demo_env ?o2))"
    by (simp add: run_defs demo_defs)
  have tag: "strategy_of_tag (opt_tilesType ?o2) = Some Moc"
    by (simp add: demo_opts_def strategy_of_tag_def)
  from schedule_requires_tiles[of ?o1 demo_env] f1 p1
  have a: "run demo_env ?o1 = Stop Exit0 [ReadParamsFromFile ''ATLAS'', LoadTxt ''demo.tess'',
      GetTelescopeSegments, ReadSkymap False, Print ''Need to enable --doTiles to use --doSchedule'']"
    by auto
  from schedule_requires_tiles[of ?o2 demo_env] t2 tag
  have b: "\<exists>tr1 tr2. trace_of (run demo_env ?o2) = tr1 @ TimeAllocation # tr2 \<and> strategies_run tr1 = [Moc]"
    by auto
  from a b show ?thesis by blast
qed

text \<open>
  Claim C9. For every run, the skymap source is chosen by fixed precedence: the event
  database lookup takes precedence over footprint generation, which takes precedence
  over a user-supplied skymap; and if none of the three sources is enabled, the program
  terminates before computing telescope segments or reading any skymap. In any run the
  event lookup is called only with \<^verbatim>\<open>--doEvent\<close>, the footprint generation only with
  \<^verbatim>\<open>--doFootprint\<close> and without \<^verbatim>\<open>--doEvent\<close>; a run that reaches line 494 with a source
  enabled makes exactly the call of the chosen source, goes on to the segments and the
  skymap, and holds the chosen source in \<^verbatim>\<open>params["skymap"]\<close>; with no source enabled the
  run stops, no segments are computed and no skymap is read, and from line 494 it ends
  with the message of line 502 and \<^verbatim>\<open>exit(0)\<close>.
\<close>

theorem skymap_source_precedence:
  "(GetEvent \<in> set (trace_of (run en op)) \<longrightarrow> doEvent op) \<and>
   (FootprintGetSkymap \<in> set (trace_of (run en op)) \<longrightarrow> \<not> doEvent op \<and> doFootprint op) \<and>
   (\<forall>p tr. params_struct en op (if isdir_outputDir en then [] else [MakeDirs]) = Cont p tr \<and>
       length (filters p) = length (exposuretimes p) \<and>
       (doEvent op \<or> doFootprint op \<or> doSkymap op) \<longrightarrow>
       (\<exists>st. pre_observability en op =
          Cont st (tr @ source_calls op @ [GetTelescopeSegments, ReadSkymap (do3D op)]
                      @ (if doCatalog op then [GetCatalog] else [])
                      @ (if doPlots op then [PlotSkymap] else [])) \<and>
          skymap (v_params st) = chosen_source op)) \<and>
   (\<not> doEvent op \<and> \<not> doFootprint op \<and> \<not> doSkymap op \<longrightarrow>
      stopped (run en op) \<and>
      GetTelescopeSegments \<notin> set (trace_of (run en op)) \<and>
      (\<forall>b. ReadSkymap b \<notin> set (trace_of (run en op))) \<and>
      (\<forall>p tr. params_struct en op (if isdir_outputDir en then [] else [MakeDirs]) = Cont p tr \<and>
         length (filters p) = length (exposuretimes p) \<longrightarrow>
         run en op = Stop Exit0 (tr @ [Print ''Need to enable --doEvent, --doFootprint or --doSkymap''])))"
proof (intro conjI impI allI)
  assume "GetEvent \<in> set (trace_of (run en op))"
  from run_events_guarded[OF this] show "doEvent op" by simp
next
  assume "FootprintGetSkymap \<in> set (trace_of (run en op))"
  from run_events_guarded[OF this] show "\<not> doEvent op" "doFootprint op" by simp_all
next
  fix p tr
  assume a: "params_struct en op (if isdir_outputDir en then [] else [MakeDirs]) = Cont p tr \<and>
       length (filters p) = length (exposuretimes p) \<and>
       (doEvent op \<or> doFootprint op \<or> doSkymap op)"
  from ensures_ContD[OF params_struct_ensures, of en op _ p tr] a
  have sk: "skymap p = UserSkymap (opt_skymap op)"
    by (auto simp: params_struct_def bind_def split: res.splits sum.splits)
  show "\<exists>st. pre_observability en op =
          Cont st (tr @ source_calls op @ [GetTelescopeSegments, ReadSkymap (do3D op)]
                      @ (if doCatalog op then [GetCatalog] else [])
                      @ (if doPlots op then [PlotSkymap] else [])) \<and>
          skymap (v_params st) = chosen_source op"
    using a sk
    by (auto simp: pre_observability_def bind_def check_filters_def init_state_def
        select_skymap_def load_skymap_def source_calls_def chosen_source_def)
next
  assume n: "\<not> doEvent op \<and> \<not> doFootprint op \<and> \<not> doSkymap op"
  then have nse: "\<not> source_enabled op" by (simp add: source_enabled_def)
  have "stopped (pre_observability en op)"
    by (rule ensures_stopped[OF pre_observability_ensures]) (use nse in \<open>simp add: loaded_def\<close>)
  then show "stopped (run en op)" by (intro run_stopped_pre pre_tiles_stopped)
  show "GetTelescopeSegments \<notin> set (trace_of (run en op))"
    using run_events_guarded[of GetTelescopeSegments en op] nse by auto
  show "ReadSkymap b \<notin> set (trace_of (run en op))" for b
    using run_events_guarded[of "ReadSkymap b" en op] nse by auto
  show "run en op = Stop Exit0 (tr @ [Print ''Need to enable --doEvent, --doFootprint or --doSkymap''])"
    if "params_struct en op (if isdir_outputDir en then [] else [MakeDirs]) = Cont p tr \<and>
         length (filters p) = length (exposuretimes p)" for p tr
    using that n
    by (simp add: run_def pre_tiles_def pre_observability_def bind_def check_filters_def
        init_state_def select_skymap_def)
qed

theorem skymap_source_precedence_witness:
  "(\<exists>st. pre_observability demo_env (demo_opts\<lparr>doEvent := True, doFootprint := True, doSkymap := True\<rparr>)
       = Cont st [ReadParamsFromFile ''ATLAS'', LoadTxt ''demo.tess'',
                  GetEvent, GetTelescopeSegments, ReadSkymap False] \<and>
       skymap (v_params st) = EventSkymap) \<and>
   (\<exists>st. pre_observability demo_env (demo_opts\<lparr>doFootprint := True, doSkymap := True\<rparr>)
       = Cont st [ReadParamsFromFile ''ATLAS'', LoadTxt ''demo.tess'',
                  FootprintGetSkymap, GetTelescopeSegments, ReadSkymap False] \<and>
       skymap (v_params st) = FootprintSkymap) \<and>
   (\<exists>st. pre_observability demo_env (demo_opts\<lparr>doSkymap := True\<rparr>)
       = Cont st [ReadParamsFromFile ''ATLAS'', LoadTxt ''demo.tess'',
                  GetTelescopeSegments, ReadSkymap False] \<and>
       skymap (v_params st) = UserSkymap ''skymap.fits'') \<and>
   run demo_env demo_opts =
     Stop Exit0 [ReadParamsFromFile ''ATLAS'', LoadTxt ''demo.tess'',
       Print ''Need to enable --doEvent, --doFootprint or --doSkymap'']"
proof -
  let ?tr = "[ReadParamsFromFile ''ATLAS'', LoadTxt ''demo.tess'']"
  let ?init = "if isdir_outputDir demo_env then [] else [MakeDirs]"
  let ?o1 = "demo_opts\<lparr>doEvent := True, doFootprint := True, doSkymap := True\<rparr>"
  let ?o2 = "demo_opts\<lparr>doFootprint := True, doSkymap := True\<rparr>"
  let ?o3 = "demo_opts\<lparr>doSkymap := True\<rparr>"
  have "\<exists>p. params_struct demo_env ?o1 ?init = Cont p ?tr \<and>
      length (filters p) = length (exposuretimes p)"
    by (simp add: run_defs demo_defs)
  then obtain p1 where p1: "params_struct demo_env ?o1 ?init = Cont p1 ?tr"
      "length (filters p1) = length (exposuretimes p1)"
    by blast
  have "\<exists>p. params_struct demo_env ?o2 ?init = Cont p ?tr \<and>
      length (filters p) = length (exposuretimes p)"
    by (simp add: run_defs demo_defs)
  then obtain p2 where p2: "params_struct demo_env ?o2 ?init = Cont p2 ?tr"
      "length (filters p2) = length (exposuretimes p2)"
    by blast
  have "\<exists>p. params_struct demo_env ?o3 ?init = Cont p ?tr \<and>
      length (filters p) = length (exposuretimes p)"
    by (simp add: run_defs demo_defs)
  then obtain p3 where p3: "params_struct demo_env ?o3 ?init = Cont p3 ?tr"
      "length (filters p3) = length (exposuretimes p3)"
    by blast
  have "\<exists>p. params_struct demo_env demo_opts ?init = Cont p ?tr \<and>
      length (filters p) = length (exposuretimes p)"
    by (simp add: run_defs demo_defs)
  then obtain p4 where p4: "params_struct demo_env demo_opts ?init = Cont p4 ?tr"
      "length (filters p4) = length (exposuretimes p4)"
    by blast
  have f1: "doEvent ?o1" "source_calls ?o1 = [GetEvent]" "chosen_source ?o1 = EventSkymap"
    "\<not> do3D ?o1" "\<not> doCatalog ?o1" "\<not> doPlots ?o1"
    by (simp_all add: demo_opts_def source_calls_def chosen_source_def)
  have f2: "doFootprint ?o2" "source_calls ?o2 = [FootprintGetSkymap]"
    "chosen_source ?o2 = FootprintSkymap" "\<not> do3D ?o2" "\<not> doCatalog ?o2" "\<not> doPlots ?o2"
    by (simp_all add: demo_opts_def source_calls_def chosen_source_def)
  have f3: "doSkymap ?o3" "source_calls ?o3 = []"
    "chosen_source ?o3 = UserSkymap ''skymap.fits''" "\<not> do3D ?o3" "\<not> doCatalog ?o3" "\<not> doPlots ?o3"
    by (simp_all add: demo_opts_def source_calls_def chosen_source_def)
  have f4: "\<not> doEvent demo_opts \<and> \<not> doFootprint demo_opts \<and> \<not> doSkymap demo_opts"
    by (simp add: demo_opts_def)
  note t1 = skymap_source_precedence[of demo_env ?o1, THEN conjunct2, THEN conjunct2, THEN conjunct1,
      rule_format, of p1 ?tr]
  note t2 = skymap_source_precedence[of demo_env ?o2, THEN conjunct2, THEN conjunct2, THEN conjunct1,
      rule_format, of p2 ?tr]
  note t3 = skymap_source_precedence[of demo_env ?o3, THEN conjunct2, THEN conjunct2, THEN conjunct1,
      rule_format, of p3 ?tr]
  note t4 = skymap_source_precedence[of demo_env demo_opts, THEN conjunct2, THEN conjunct2,
      THEN conjunct2, rule_format, OF f4]
  from t1 p1 f1 have a: "\<exists>st. pre_observability demo_env ?o1
       = Cont st [ReadParamsFromFile ''ATLAS'', LoadTxt ''demo.tess'',
                  GetEvent, GetTelescopeSegments, ReadSkymap False] \<and>
       skymap (v_params st) = EventSkymap" by simp
  from t2 p2 f2 have b: "\<exists>st. pre_observability demo_env ?o2
       = Cont st [ReadParamsFromFile ''ATLAS'', LoadTxt ''demo.tess'',
                  FootprintGetSkymap, GetTelescopeSegments, ReadSkymap False] \<and>
       skymap (v_params st) = FootprintSkymap" by simp
  from t3 p3 f3 have c: "\<exists>st. pre_observability demo_env ?o3
       = Cont st [ReadParamsFromFile ''ATLAS'', LoadTxt ''demo.tess'',
                  GetTelescopeSegments, ReadSkymap False] \<and>
       skymap (v_params st) = UserSkymap ''skymap.fits''" by simp
  from t4 p4 have d: "run demo_env demo_opts =
     Stop Exit0 [ReadParamsFromFile ''ATLAS'', LoadTxt ''demo.tess'',
       Print ''Need to enable --doEvent, --doFootprint or --doSkymap'']" by simp
  from a b c d show ?thesis by blast
qed

text \<open>The tiling stage on a tag that names no strategy.\<close>

lemma tiles_stage_invalid:
  assumes "observed en op st" "doTiles op" "strategy_of_tag (opt_tilesType op) = None"
  shows "tiles_stage en op st tr =
     Stop Exit0 (tr @ [Print ''Need tilesType to be moc, greedy, hierarchical, ranked or galaxy''])"
proof -
  from assms(1) have tt: "tilesType (v_params st) = opt_tilesType op"
    by (simp add: observed_def loaded_def params_inv_def)
  show ?thesis using assms(2,3) tt
    by (auto simp: tiles_stage_def tiles_dispatch_def bind_def Let_def strategy_of_tag_def
        split: if_splits)
qed

text \<open>The tiling stage on a valid tag: the selected strategy runs, whether or not the
  loop over the telescopes that follows it raises.\<close>

lemma tiles_stage_valid:
  assumes "observed en op st" "doTiles op" "strategy_of_tag (opt_tilesType op) = Some s"
    "s = Galaxy \<longrightarrow> doCatalog op"
  shows "\<exists>ev. trace_of (tiles_stage en op st tr) = tr @ ev \<and> strategies_run ev = [s] \<and>
           list_all tiling_event ev"
proof -
  from assms(1) have tt: "tilesType (v_params st) = opt_tilesType op"
    and cat: "catalog_struct st = doCatalog op"
    by (simp_all add: observed_def loaded_def params_inv_def)
  show ?thesis using assms(2,3,4) tt cat
    by (auto simp: tiles_stage_def tiles_dispatch_def bind_def Let_def strategy_of_tag_def
        split: if_splits sum.splits)
qed

lemma run_trace_tiles:
  assumes "pre_tiles en op = Cont st tr"
  shows "\<exists>ev. trace_of (run en op) = trace_of (tiles_stage en op st tr) @ ev \<and>
           list_all (post_guarded en op) ev"
proof (cases "tiles_stage en op st tr")
  case (Stop h tr')
  with assms show ?thesis by (simp add: run_def bind_def)
next
  case (Cont st' tr')
  from ensures_ContD[OF tiles_stage_ensures[OF pre_tiles_Cont(1)[OF assms]] Cont]
  have "tiled en op st'" by simp
  from post_tiles_trace[OF this, of tr'] Cont assms show ?thesis
    by (simp add: run_def bind_def)
qed

text \<open>
  Claim C5, as stated: for every run with tiling enabled, exactly one of the five tiling
  strategies (moc, ranked, hierarchical, greedy, galaxy) executes, selected by the
  tilesType tag; any other tilesType value causes the program to terminate with no tiles
  generated. A run with tiling enabled does not always reach the dispatch: with
  \<^verbatim>\<open>--doTiles\<close> and the tag \<^verbatim>\<open>moc\<close> but no skymap source, the program leaves at line
  503 and no strategy executes.
\<close>

theorem every_run_tiles_counterexample:
  "doTiles (demo_opts\<lparr>doTiles := True\<rparr>) \<and>
   strategy_of_tag (opt_tilesType (demo_opts\<lparr>doTiles := True\<rparr>)) = Some Moc \<and>
   run demo_env (demo_opts\<lparr>doTiles := True\<rparr>) =
     Stop Exit0 [ReadParamsFromFile ''ATLAS'', LoadTxt ''demo.tess'',
       Print ''Need to enable --doEvent, --doFootprint or --doSkymap''] \<and>
   strategies_run (trace_of (run demo_env (demo_opts\<lparr>doTiles := True\<rparr>))) = []"
  by (simp add: run_defs demo_defs strategy_of_tag_def)

text \<open>
  Claim C5, amended: for every run with tiling enabled that reaches the dispatch of line
  572 (\<open>pre_tiles\<close> continues), exactly one strategy executes, the one the tilesType tag
  names, when the tag is moc, ranked, hierarchical or greedy, or galaxy with the catalog
  generated (\<^verbatim>\<open>--doCatalog\<close>); with any other tag the program ends there with the
  message of line 626 and \<^verbatim>\<open>exit(0)\<close>, no strategy has executed and no tiling event is
  in the trace.
\<close>

theorem tiling_dispatch:
  assumes "doTiles op" and "pre_tiles en op = Cont st tr"
  shows "(\<forall>s. strategy_of_tag (opt_tilesType op) = Some s \<and> (s = Galaxy \<longrightarrow> doCatalog op) \<longrightarrow>
            strategies_run (trace_of (run en op)) = [s]) \<and>
         (strategy_of_tag (opt_tilesType op) = None \<longrightarrow>
            run en op = Stop Exit0
              (tr @ [Print ''Need tilesType to be moc, greedy, hierarchical, ranked or galaxy'']) \<and>
            strategies_run (trace_of (run en op)) = [] \<and>
            (\<forall>e \<in> set (trace_of (run en op)). \<not> tiling_event e))"
proof (intro conjI allI impI)
  note ob = pre_tiles_Cont[OF assms(2)]
  {
    fix s
    assume s: "strategy_of_tag (opt_tilesType op) = Some s \<and> (s = Galaxy \<longrightarrow> doCatalog op)"
    from tiles_stage_valid[OF ob(1) assms(1), of s tr] s obtain ev where
      ev: "trace_of (tiles_stage en op st tr) = tr @ ev" "strategies_run ev = [s]" by blast
    from run_trace_tiles[OF assms(2)] obtain ev' where
      ev': "trace_of (run en op) = trace_of (tiles_stage en op st tr) @ ev'"
        "list_all (post_guarded en op) ev'" by blast
    show "strategies_run (trace_of (run en op)) = [s]"
      using ev ev' pre_guarded_no_strategy[OF ob(2)] post_guarded_no_strategy[OF ev'(2)]
      by simp
  }
  assume n: "strategy_of_tag (opt_tilesType op) = None"
  from tiles_stage_invalid[OF ob(1) assms(1) n, of tr] assms(2)
  show r: "run en op = Stop Exit0
      (tr @ [Print ''Need tilesType to be moc, greedy, hierarchical, ranked or galaxy''])"
    by (simp add: run_def bind_def)
  have nt: "\<not> tiling_event e" if "e \<in> set tr" for e
    using ob(2) that by (auto simp: list_all_iff pre_guarded_def)
  then show "strategies_run (trace_of (run en op)) = []"
    unfolding r by (simp add: no_tiling_no_strategy list_all_iff)
  show "\<forall>e \<in> set (trace_of (run en op)). \<not> tiling_event e"
    unfolding r using nt by auto
qed

theorem tiling_dispatch_witness:
  "strategies_run (trace_of (run demo_env
      (demo_opts\<lparr>doSkymap := True, doTiles := True, opt_tilesType := ''greedy''\<rparr>))) = [Greedy] \<and>
   run demo_env (demo_opts\<lparr>doSkymap := True, doTiles := True, opt_tilesType := ''spiral''\<rparr>) =
     Stop Exit0 [ReadParamsFromFile ''ATLAS'', LoadTxt ''demo.tess'', GetTelescopeSegments,
       ReadSkymap False,
       Print ''Need tilesType to be moc, greedy, hierarchical, ranked or galaxy'']"
proof -
  let ?o1 = "demo_opts\<lparr>doSkymap := True, doTiles := True, opt_tilesType := ''greedy''\<rparr>"
  let ?o2 = "demo_opts\<lparr>doSkymap := True, doTiles := True, opt_tilesType := ''spiral''\<rparr>"
  let ?tr = "[ReadParamsFromFile ''ATLAS'', LoadTxt ''demo.tess'', GetTelescopeSegments,
       ReadSkymap False]"
  have "\<exists>st. pre_tiles demo_env ?o1 = Cont st ?tr" by (simp add: run_defs demo_defs)
  then obtain st1 where p1: "pre_tiles demo_env ?o1 = Cont st1 ?tr" by blast
  have "\<exists>st. pre_tiles demo_env ?o2 = Cont st ?tr" by (simp add: run_defs demo_defs)
  then obtain st2 where p2: "pre_tiles demo_env ?o2 = Cont st2 ?tr" by blast
  have d1: "doTiles ?o1" and d2: "doTiles ?o2" by (simp_all add: demo_opts_def)
  have g1: "strategy_of_tag (opt_tilesType ?o1) = Some Greedy"
    and g2: "strategy_of_tag (opt_tilesType ?o2) = None"
    by (simp_all add: demo_opts_def strategy_of_tag_def)
  from tiling_dispatch[OF d1 p1] g1
  have a: "strategies_run (trace_of (run demo_env ?o1)) = [Greedy]" by simp
  from tiling_dispatch[OF d2 p2] g2
  have b: "run demo_env ?o2 = Stop Exit0 [ReadParamsFromFile ''ATLAS'', LoadTxt ''demo.tess'',
       GetTelescopeSegments, ReadSkymap False,
       Print ''Need tilesType to be moc, greedy, hierarchical, ranked or galaxy'']" by simp
  from a b show ?thesis by blast
qed

text \<open>
  The galaxy branch reads \<^verbatim>\<open>catalog_struct\<close>, which only \<^verbatim>\<open>--doCatalog\<close> binds: without
  it the dispatch raises \<^verbatim>\<open>NameError\<close> before the galaxy strategy is called.
\<close>

lemma galaxy_without_catalog:
  "run demo_env (demo_opts\<lparr>doSkymap := True, doTiles := True, opt_tilesType := ''galaxy''\<rparr>) =
     Stop (Raised NameError) [ReadParamsFromFile ''ATLAS'', GetTelescopeSegments, ReadSkymap False]"
  by (simp add: run_defs demo_defs)

text \<open>
  Claim C4, as stated: when observability checking with early exit is enabled and some
  telescope's cumulative visible probability is below the configured threshold, that
  telescope is excluded from scheduling while the remaining telescopes proceed with the
  run. In the script the first such telescope ends the whole program: with two
  telescopes of which the first is below and the second above the threshold, and tiling
  and scheduling requested, the run is \<^verbatim>\<open>exit(0)\<close> right after the message of line 535,
  and nothing is tiled or scheduled for the second telescope.
\<close>

theorem remaining_telescopes_proceed_counterexample:
  "below_threshold demo_env demo_opts_exit ''ATLAS'' \<and>
   observable demo_env demo_opts_exit ''ZTF'' \<and>
   doTiles demo_opts_exit \<and> doSchedule demo_opts_exit \<and>
   run demo_env demo_opts_exit =
     Stop Exit0 [ReadParamsFromFile ''ATLAS'', LoadTxt ''demo.tess'',
                 ReadParamsFromFile ''ZTF'', LoadTxt ''demo.tess'',
                 GetTelescopeSegments, ReadSkymap False, Observability,
                 PrintObservabilityExit ''ATLAS'' (1 / 100) (5 / 100)]"
  by (simp add: demo_opts_exit_def run_defs demo_defs below_threshold_def observable_def)

lemma observability_exit_loop_exits:
  assumes "set ts \<subseteq> dom (observability_prob en)" "t \<in> set ts" "below_threshold en op t"
  shows "\<exists>tr'. observability_exit_loop en op p ts tr = Stop Exit0 tr'"
  using assms
proof (induction ts)
  case Nil
  then show ?case by simp
next
  case (Cons a ts)
  from Cons.prems(1) obtain prob where pr: "observability_prob en a = Some prob" by auto
  show ?case
  proof (cases "sum_list prob < observability_thresh op")
    case True
    with pr show ?thesis by simp
  next
    case False
    with pr Cons.prems(3) have "t \<noteq> a" by (auto simp: below_threshold_def)
    with Cons have "\<exists>tr'. observability_exit_loop en op p ts tr = Stop Exit0 tr'" by auto
    with pr False show ?thesis by simp
  qed
qed

text \<open>
  Claim C4, amended: when observability checking with early exit is enabled and some
  telescope's summed observability probability is below the threshold, the whole run
  stops before sampling, splitting, tiling, time allocation, scheduling and efficiency
  for every telescope; when the run reaches line 522 and the observability result has an
  entry for every telescope, it stops by \<^verbatim>\<open>exit(0)\<close>.
\<close>

theorem observability_exit_stops_run:
  assumes "doObservability op" and "doObservabilityExit op"
    and "t \<in> set (split_comma (opt_telescopes op))" and "below_threshold en op t"
  shows "stopped (run en op) \<and>
         (\<forall>e \<in> set (trace_of (run en op)).
            \<not> tiling_event e \<and> \<not> coverage_event e \<and> \<not> efficiency_event e \<and>
            e \<noteq> SimilarRange \<and> (\<forall>b. e \<noteq> SamplesFromSkymap b)) \<and>
         (\<forall>st tr. pre_observability en op = Cont st tr \<and>
            set (split_comma (opt_telescopes op)) \<subseteq> dom (observability_prob en) \<longrightarrow>
            (\<exists>tr'. run en op = Stop Exit0 tr'))"
proof (intro conjI ballI allI impI)
  from assms(4) have "\<not> observable en op t"
    by (auto simp: below_threshold_def observable_def split: option.splits)
  with assms(1,2,3) have np: "\<not> observability_passed en op"
    by (auto simp: observability_passed_def list_all_iff)
  have "stopped (pre_tiles en op)"
    by (rule ensures_stopped[OF pre_tiles_ensures]) (use np in \<open>simp add: observed_def\<close>)
  then show "stopped (run en op)" by (rule run_stopped_pre)
  {
    fix e assume "e \<in> set (trace_of (run en op))"
    then have g: "guarded en op e" by (rule run_events_guarded)
    from g np show "\<not> tiling_event e"
      by (cases e) (auto simp: tiles_passed_def)
    from g np show "\<not> coverage_event e"
      by (cases e) (auto simp: tiles_passed_def coverage_passed_def)
    from g np show "\<not> efficiency_event e"
      by (cases e) (auto simp: tiles_passed_def coverage_passed_def)
    from g np show "e \<noteq> SimilarRange" by auto
    from g np show "e \<noteq> SamplesFromSkymap b" for b by auto
  }
  fix st tr
  assume a: "pre_observability en op = Cont st tr \<and>
            set (split_comma (opt_telescopes op)) \<subseteq> dom (observability_prob en)"
  from ensures_ContD[OF pre_observability_ensures, of en op st tr] a
  have tel: "telescopes (v_params st) = split_comma (opt_telescopes op)"
    by (simp add: loaded_def params_inv_def)
  from observability_exit_loop_exits[of "split_comma (opt_telescopes op)" en t op] a assms(3,4)
  have "\<exists>tr'. observability_exit_loop en op (v_params st) (split_comma (opt_telescopes op))
          (tr @ [Observability] @ (if doPlots op then [PlotObservability] else [])) = Stop Exit0 tr'"
    by blast
  then show "\<exists>tr'. run en op = Stop Exit0 tr'"
    using a assms(1,2) tel
    by (auto simp: run_def pre_tiles_def bind_def observability_stage_def Let_def)
qed

theorem observability_exit_stops_run_witness:
  "below_threshold demo_env demo_opts_exit ''ATLAS'' \<and>
   stopped (run demo_env demo_opts_exit) \<and>
   (\<exists>tr'. run demo_env demo_opts_exit = Stop Exit0 tr')"
proof -
  have f: "doObservability demo_opts_exit" "doObservabilityExit demo_opts_exit"
    "''ATLAS'' \<in> set (split_comma (opt_telescopes demo_opts_exit))"
    "below_threshold demo_env demo_opts_exit ''ATLAS''"
    "set (split_comma (opt_telescopes demo_opts_exit)) \<subseteq> dom (observability_prob demo_env)"
    by (simp_all add: demo_opts_exit_def demo_defs below_threshold_def)
  have "\<exists>st tr. pre_observability demo_env demo_opts_exit = Cont st tr"
    by (simp add: demo_opts_exit_def run_defs demo_defs)
  with observability_exit_stops_run[OF f(1-4)] f(4,5) show ?thesis by blast
qed

lemma hierarchical_loop_result:
  assumes "set ts \<subseteq> dom (config p)" "set ts \<subseteq> dom tsr"
  shows "\<exists>p'. hierarchical_loop tsr ts ns p = Inr p' \<and>
           Ntiles p' = NtilesList (ns @ map (tile_count tsr) ts) \<and>
           dom (config p') = dom (config p) \<and>
           (\<forall>t \<in> set ts. tesselation_rebuilt tsr p' t) \<and>
           (\<forall>t. t \<notin> set ts \<longrightarrow> config p' t = config p t) \<and>
           telescopes p' = telescopes p"
  using assms
proof (induction ts arbitrary: ns p)
  case Nil
  then show ?case by simp
next
  case (Cons t ts)
  from Cons.prems obtain cfg tiles where c: "config p t = Some cfg" and r: "tsr t = Some tiles"
    by auto
  let ?p1 = "p\<lparr>config := (config p)(t \<mapsto> cfg(''tesselation'' \<mapsto> Tess (tesselation_rows tiles)))\<rparr>"
  have d: "dom (config ?p1) = dom (config p)" using c by auto
  from Cons.prems d have pre: "set ts \<subseteq> dom (config ?p1)" "set ts \<subseteq> dom tsr" by auto
  from Cons.IH[OF pre, of "ns @ [length tiles]"] obtain p' where
    p': "hierarchical_loop tsr ts (ns @ [length tiles]) ?p1 = Inr p'"
      "Ntiles p' = NtilesList ((ns @ [length tiles]) @ map (tile_count tsr) ts)"
      "dom (config p') = dom (config ?p1)"
      "\<forall>t \<in> set ts. tesselation_rebuilt tsr p' t"
      "\<forall>t. t \<notin> set ts \<longrightarrow> config p' t = config ?p1 t"
      "telescopes p' = telescopes ?p1"
    by blast
  have here: "tesselation_rebuilt tsr p' t"
  proof (cases "t \<in> set ts")
    case True
    with p'(4) show ?thesis by blast
  next
    case False
    with p'(5) have "config p' t = config ?p1 t" by blast
    with r show ?thesis by (simp add: tesselation_rebuilt_def)
  qed
  have "hierarchical_loop tsr (t # ts) ns p = Inr p'" using c r p'(1) by simp
  moreover have "Ntiles p' = NtilesList (ns @ map (tile_count tsr) (t # ts))"
    using p'(2) r by (simp add: tile_count_def)
  moreover have "dom (config p') = dom (config p)" using p'(3) d by simp
  moreover have "\<forall>u \<in> set (t # ts). tesselation_rebuilt tsr p' u" using here p'(4) by simp
  moreover have "\<forall>u. u \<notin> set (t # ts) \<longrightarrow> config p' u = config p u" using p'(5) by simp
  moreover have "telescopes p' = telescopes p" using p'(6) by simp
  ultimately show ?case by blast
qed

text \<open>
  Claim C7. After hierarchical-subdivision tiling, each telescope's tessellation is
  rebuilt from the generated tile centers (no separate tessellation file is consulted)
  and the Ntiles parameter becomes a list with one entry per telescope equal to the
  number of tiles generated for that telescope, so the tile count may differ between
  telescopes. For a run that reaches the dispatch with the tag \<^verbatim>\<open>hierarchical\<close>, and a
  tiling result that has an entry for every telescope: the stage calls the hierarchical
  tiler and nothing else but the optional plot, \<^verbatim>\<open>params["Ntiles"]\<close> is the list of the
  tile counts in the order of the telescopes, and every telescope's tessellation is the
  table of rows \<^verbatim>\<open>[index, ra, dec]\<close> of its tiles.
\<close>

theorem hierarchical_rebuilds_tesselation:
  assumes "pre_tiles en op = Cont st tr" and "doTiles op"
    and "opt_tilesType op = ''hierarchical''"
    and "set (split_comma (opt_telescopes op)) \<subseteq> dom (tiles_result en Hierarchical)"
  shows "\<exists>st'. tiles_stage en op st tr =
             Cont st' (tr @ [TilesHierarchical] @ (if doPlots op then [PlotTiles] else [])) \<and>
           Ntiles (v_params st') =
             NtilesList (map (tile_count (tiles_result en Hierarchical))
                             (split_comma (opt_telescopes op))) \<and>
           (\<forall>t \<in> set (split_comma (opt_telescopes op)).
              tesselation_rebuilt (tiles_result en Hierarchical) (v_params st') t)"
proof -
  from pre_tiles_Cont(1)[OF assms(1)] have pi: "params_inv op (v_params st)"
    by (simp add: observed_def loaded_def)
  then have tel: "telescopes (v_params st) = split_comma (opt_telescopes op)"
    and tt: "tilesType (v_params st) = ''hierarchical''"
    and dm: "set (split_comma (opt_telescopes op)) \<subseteq> dom (config (v_params st))"
    using assms(3) by (auto simp: params_inv_def)
  from hierarchical_loop_result[OF dm assms(4), of "[]"] obtain p' where
    p': "hierarchical_loop (tiles_result en Hierarchical) (split_comma (opt_telescopes op)) []
           (v_params st) = Inr p'"
      "Ntiles p' = NtilesList (map (tile_count (tiles_result en Hierarchical))
                             (split_comma (opt_telescopes op)))"
      "\<forall>t \<in> set (split_comma (opt_telescopes op)).
          tesselation_rebuilt (tiles_result en Hierarchical) p' t"
    by auto
  let ?st' = "st\<lparr>v_params := p', v_tile_structs := Some (tiles_result en Hierarchical)\<rparr>"
  have "tiles_stage en op st tr =
          Cont ?st' (tr @ [TilesHierarchical] @ (if doPlots op then [PlotTiles] else []))"
    using assms(2) tt tel p'(1)
    by (simp add: tiles_stage_def tiles_dispatch_def bind_def Let_def)
  with p'(2,3) show ?thesis by auto
qed

theorem hierarchical_rebuilds_tesselation_witness:
  "\<exists>st st' tr. pre_tiles demo_env demo_opts_hierarchical = Cont st tr \<and>
      tiles_stage demo_env demo_opts_hierarchical st tr = Cont st' (tr @ [TilesHierarchical]) \<and>
      Ntiles (v_params st') = NtilesList [1, 2] \<and>
      tesselation_rebuilt demo_tiles (v_params st') ''ATLAS'' \<and>
      tesselation_rebuilt demo_tiles (v_params st') ''ZTF''"
proof -
  have "\<exists>st tr. pre_tiles demo_env demo_opts_hierarchical = Cont st tr"
    by (simp add: demo_opts_hierarchical_def run_defs demo_defs)
  then obtain st tr where p: "pre_tiles demo_env demo_opts_hierarchical = Cont st tr" by blast
  have f: "doTiles demo_opts_hierarchical" "opt_tilesType demo_opts_hierarchical = ''hierarchical''"
    "set (split_comma (opt_telescopes demo_opts_hierarchical)) \<subseteq> dom (tiles_result demo_env Hierarchical)"
    "split_comma (opt_telescopes demo_opts_hierarchical) = [''ATLAS'', ''ZTF'']"
    "\<not> doPlots demo_opts_hierarchical" "tiles_result demo_env Hierarchical = demo_tiles"
    by (simp_all add: demo_opts_hierarchical_def demo_defs)
  have tc: "map (tile_count demo_tiles) [''ATLAS'', ''ZTF''] = [1, 2]"
    by (simp add: tile_count_def demo_tiles_def)
  from hierarchical_rebuilds_tesselation[OF p f(1,2,3)] f(4,5,6) tc p
  show ?thesis by auto
qed

lemma single_exposure_Inr:
  assumes "single_exposure e0 cfg = Inr c"
  shows "\<exists>m e. cfg ''magnitude'' = Some (Num m) \<and> cfg ''exposuretime'' = Some (Num e) \<and>
           c = cfg(''magnitude_orig'' \<mapsto> Num m, ''exposuretime_orig'' \<mapsto> Num e,
                   ''magnitude'' \<mapsto> Num (m + - 2.5 * log 10 (sqrt (e / e0))),
                   ''exposuretime'' \<mapsto> Num e0)"
  using assms
  by (auto simp: single_exposure_def Let_def split: option.splits cval.splits)

lemma single_exposure_frame:
  "single_exposure e0 cfg = Inr c \<Longrightarrow> k \<notin> single_exposure_keys \<Longrightarrow> c k = cfg k"
  by (drule single_exposure_Inr) (auto simp: single_exposure_keys_def)

lemma tesselation_step_frame:
  "tesselation_step en op t cfg tr = Cont c tr' \<Longrightarrow> k \<noteq> ''tesselation'' \<Longrightarrow> c k = cfg k"
  by (auto simp: tesselation_step_def bind_def split: option.splits cval.splits if_splits)

lemma reference_step_frame:
  "reference_step en cfg tr = Cont c tr' \<Longrightarrow> k \<noteq> ''reference_images'' \<Longrightarrow> c k = cfg k"
  by (auto simp: reference_step_def split: option.splits cval.splits)

lemma observer_step_frame:
  "observer_step cfg tr = Cont c tr' \<Longrightarrow> k \<noteq> ''observer'' \<Longrightarrow> c k = cfg k"
  by (auto simp: observer_step_def split: option.splits)

lemma bind_Cont:
  "bind r f = Cont b tr' \<Longrightarrow> \<exists>a tr. r = Cont a tr \<and> f a tr = Cont b tr'"
  by (cases r) (simp_all add: bind_def)

lemma config_telescope_single:
  assumes "doSingleExposure op" "config_telescope en op t tr = Cont c tr'"
  shows "\<exists>cfg0 e0 rest. readParamsFromFile en t = Some cfg0 \<and>
           parse_floats (parse_float en) (split_comma (opt_exposuretimes op)) = Inr (e0 # rest) \<and>
           single_exposed cfg0 e0 c"
proof -
  from assms(2) obtain cfg0 where r: "readParamsFromFile en t = Some cfg0"
    by (cases "readParamsFromFile en t") (simp_all add: config_telescope_def)
  with assms(2) have
    "bind (single_exposure_step en op (cfg0(''telescope'' \<mapsto> Str t)) (tr @ [ReadParamsFromFile t]))
            (\<lambda>cfg1 tr1. bind (tesselation_step en op t cfg1 tr1)
              (\<lambda>cfg2 tr2. bind (reference_step en cfg2 tr2) observer_step)) = Cont c tr'"
    by (simp add: config_telescope_def)
  from bind_Cont[OF this] obtain c1 tr1 where
    s1: "single_exposure_step en op (cfg0(''telescope'' \<mapsto> Str t)) (tr @ [ReadParamsFromFile t]) = Cont c1 tr1"
    and b1: "bind (tesselation_step en op t c1 tr1)
              (\<lambda>cfg2 tr2. bind (reference_step en cfg2 tr2) observer_step) = Cont c tr'"
    by blast
  from bind_Cont[OF b1] obtain c2 tr2 where
    s2: "tesselation_step en op t c1 tr1 = Cont c2 tr2"
    and b2: "bind (reference_step en c2 tr2) observer_step = Cont c tr'"
    by blast
  from bind_Cont[OF b2] obtain c3 tr3 where
    s3: "reference_step en c2 tr2 = Cont c3 tr3"
    and s4: "observer_step c3 tr3 = Cont c tr'"
    by blast
  from s1 assms(1) obtain e0 rest where
    pf: "parse_floats (parse_float en) (split_comma (opt_exposuretimes op)) = Inr (e0 # rest)"
    and se: "single_exposure e0 (cfg0(''telescope'' \<mapsto> Str t)) = Inr c1"
    by (auto simp: single_exposure_step_def split: sum.splits list.splits)
  from single_exposure_Inr[OF se] obtain m e where
    m: "cfg0 ''magnitude'' = Some (Num m)" and e: "cfg0 ''exposuretime'' = Some (Num e)"
    and c1: "c1 = (cfg0(''telescope'' \<mapsto> Str t))(''magnitude_orig'' \<mapsto> Num m, ''exposuretime_orig'' \<mapsto> Num e,
                   ''magnitude'' \<mapsto> Num (m + - 2.5 * log 10 (sqrt (e / e0))),
                   ''exposuretime'' \<mapsto> Num e0)"
    by auto
  have later: "c k = c1 k" if "k \<noteq> ''tesselation''" "k \<noteq> ''reference_images''" "k \<noteq> ''observer''" for k
    using that tesselation_step_frame[OF s2, of k] reference_step_frame[OF s3, of k]
      observer_step_frame[OF s4, of k]
    by simp
  have f1: "c ''exposuretime'' = Some (Num e0)"
    using later[of "''exposuretime''"] c1 by simp
  have f2: "c ''magnitude'' = Some (Num (m + - 2.5 * log 10 (sqrt (e / e0))))"
    using later[of "''magnitude''"] c1 by simp
  have f3: "c ''magnitude_orig'' = Some (Num m)"
    using later[of "''magnitude_orig''"] c1 by simp
  have f4: "c ''exposuretime_orig'' = Some (Num e)"
    using later[of "''exposuretime_orig''"] c1 by simp
  have f5: "c k = cfg0 k" if "k \<notin> single_exposure_keys \<union> params_struct_keys" for k
  proof -
    from that have k: "k \<noteq> ''tesselation''" "k \<noteq> ''reference_images''" "k \<noteq> ''observer''"
      "k \<noteq> ''telescope''" "k \<noteq> ''magnitude''" "k \<noteq> ''exposuretime''"
      "k \<noteq> ''magnitude_orig''" "k \<noteq> ''exposuretime_orig''"
      by (auto simp: params_struct_keys_def single_exposure_keys_def)
    from later[OF k(1,2,3)] c1 k(4-8) show ?thesis by simp
  qed
  have "single_exposed cfg0 e0 c"
    unfolding single_exposed_def using m e f1 f2 f3 f4 f5 by blast
  with r pf show ?thesis by blast
qed

lemma config_loop_Cont:
  assumes "config_loop en op ts cfgs0 tr = Cont cfgs tr'"
  shows "(\<forall>t \<in> set ts. \<exists>c tr1 tr2. cfgs t = Some c \<and> config_telescope en op t tr1 = Cont c tr2) \<and>
         (\<forall>t. t \<notin> set ts \<longrightarrow> cfgs t = cfgs0 t)"
  using assms
proof (induction ts arbitrary: cfgs0 tr)
  case Nil
  then show ?case by simp
next
  case (Cons a ts)
  from Cons.prems obtain c tr1 where
    ct: "config_telescope en op a tr = Cont c tr1"
    and rest: "config_loop en op ts (cfgs0(a \<mapsto> c)) tr1 = Cont cfgs tr'"
    by (auto split: res.splits)
  from Cons.IH[OF rest] have
    ih1: "\<forall>t \<in> set ts. \<exists>c tr1 tr2. cfgs t = Some c \<and> config_telescope en op t tr1 = Cont c tr2"
    and ih2: "\<forall>t. t \<notin> set ts \<longrightarrow> cfgs t = (cfgs0(a \<mapsto> c)) t"
    by blast+
  have "\<exists>c tr1 tr2. cfgs a = Some c \<and> config_telescope en op a tr1 = Cont c tr2"
  proof (cases "a \<in> set ts")
    case True
    with ih1 show ?thesis by blast
  next
    case False
    with ih2 have "cfgs a = Some c" by simp
    with ct show ?thesis by blast
  qed
  with ih1 ih2 show ?case by auto
qed

lemma params_struct_Cont:
  assumes "params_struct en op tr = Cont p tr'"
  shows "(\<exists>tr1. config_loop en op (split_comma (opt_telescopes op)) Map.empty tr = Cont (config p) tr1) \<and>
         telescopes p = split_comma (opt_telescopes op) \<and>
         parse_floats (parse_float en) (split_comma (opt_exposuretimes op)) = Inr (exposuretimes p)"
proof (cases "config_loop en op (split_comma (opt_telescopes op)) Map.empty tr")
  case (Stop h t)
  with assms show ?thesis by (simp add: params_struct_def bind_def)
next
  case (Cont cfgs tr1)
  with assms show ?thesis
    by (auto simp: params_struct_def bind_def split: sum.splits)
qed

text \<open>
  Claim C10. When single-exposure mode is enabled, for every configured telescope the
  configured exposure time is replaced by the first entry of the exposure-times list and
  the limiting magnitude is shifted by
  \<^verbatim>\<open>-2.5*log10(sqrt(original_exposuretime / new_exposuretime))\<close>, while the original
  values are preserved in the \<^verbatim>\<open>magnitude_orig\<close> and \<^verbatim>\<open>exposuretime_orig\<close> fields and all
  other configuration fields are left unchanged. For every telescope of a
  \<^verbatim>\<open>params_struct\<close> that returns with the mode on, the telescope's configuration in
  \<^verbatim>\<open>params\<close> relates to the configuration read from its file as \<open>single_exposed\<close>
  says, for the first entry of \<^verbatim>\<open>params["exposuretimes"]\<close>: the four fields as claimed,
  and every field unchanged but those four and the four that \<^verbatim>\<open>params_struct\<close> writes in
  either mode (\<^verbatim>\<open>telescope\<close>, \<^verbatim>\<open>tesselation\<close>, \<^verbatim>\<open>reference_images\<close>, \<^verbatim>\<open>observer\<close>). The
  block of lines 279 to 295 itself changes no field but its four.
\<close>

theorem single_exposure_mode:
  assumes "doSingleExposure op" and "params_struct en op tr = Cont p tr'"
    and "t \<in> set (telescopes p)"
  shows "(\<exists>cfg0 c exposuretime rest.
            readParamsFromFile en t = Some cfg0 \<and> config p t = Some c \<and>
            exposuretimes p = exposuretime # rest \<and>
            single_exposed cfg0 exposuretime c) \<and>
         (\<forall>exposuretime cfg c k.
            single_exposure exposuretime cfg = Inr c \<and> k \<notin> single_exposure_keys \<longrightarrow>
            c k = cfg k)"
proof (rule conjI)
  show "\<forall>exposuretime cfg c k.
            single_exposure exposuretime cfg = Inr c \<and> k \<notin> single_exposure_keys \<longrightarrow>
            c k = cfg k"
    using single_exposure_frame by blast
next
  from params_struct_Cont[OF assms(2)] obtain tr1 where
    cl: "config_loop en op (split_comma (opt_telescopes op)) Map.empty tr = Cont (config p) tr1"
    and tp: "telescopes p = split_comma (opt_telescopes op)"
    and ep: "parse_floats (parse_float en) (split_comma (opt_exposuretimes op)) = Inr (exposuretimes p)"
    by blast
  from assms(3) tp have "t \<in> set (split_comma (opt_telescopes op))" by simp
  with config_loop_Cont[OF cl] obtain c tr2 tr3 where
    c: "config p t = Some c" "config_telescope en op t tr2 = Cont c tr3" by blast
  from config_telescope_single[OF assms(1) c(2)] obtain cfg0 e0 rest where
    r: "readParamsFromFile en t = Some cfg0"
    and pf: "parse_floats (parse_float en) (split_comma (opt_exposuretimes op)) = Inr (e0 # rest)"
    and se: "single_exposed cfg0 e0 c" by blast
  from pf ep have "exposuretimes p = e0 # rest" by simp
  with r c(1) se show "\<exists>cfg0 c exposuretime rest.
            readParamsFromFile en t = Some cfg0 \<and> config p t = Some c \<and>
            exposuretimes p = exposuretime # rest \<and>
            single_exposed cfg0 exposuretime c" by blast
qed

lemma demo_params_single:
  "\<exists>p tr'. params_struct demo_env demo_opts_single [] = Cont p tr' \<and>
      telescopes p = [''ATLAS'', ''ZTF''] \<and> exposuretimes p = [120, 30, 30]"
  by (simp add: demo_opts_single_def run_defs demo_defs single_exposure_def)

theorem single_exposure_mode_witness:
  "\<exists>p tr' c. params_struct demo_env demo_opts_single [] = Cont p tr' \<and>
      config p ''ZTF'' = Some c \<and>
      c ''exposuretime'' = Some (Num 120) \<and>
      c ''magnitude'' = Some (Num (20 + - 2.5 * log 10 (sqrt (30 / 120)))) \<and>
      c ''magnitude_orig'' = Some (Num 20) \<and>
      c ''exposuretime_orig'' = Some (Num 30) \<and>
      c ''FOV'' = Some (Num 5)"
proof -
  from demo_params_single obtain p tr' where
    p: "params_struct demo_env demo_opts_single [] = Cont p tr'"
    "telescopes p = [''ATLAS'', ''ZTF'']" "exposuretimes p = [120, 30, 30]" by blast
  have d: "doSingleExposure demo_opts_single" by (simp add: demo_opts_single_def demo_opts_def)
  have t: "''ZTF'' \<in> set (telescopes p)" using p(2) by simp
  from single_exposure_mode[OF d p(1) t, THEN conjunct1] p(3) obtain cfg0 c where
    c: "readParamsFromFile demo_env ''ZTF'' = Some cfg0" "config p ''ZTF'' = Some c"
      "single_exposed cfg0 120 c" by auto
  from c(1) have cfg0: "cfg0 = demo_config" by (simp add: demo_env_def)
  from c(3) obtain m e where me: "demo_config ''magnitude'' = Some (Num m)"
      "demo_config ''exposuretime'' = Some (Num e)"
      "c ''exposuretime'' = Some (Num 120)"
      "c ''magnitude'' = Some (Num (m + - 2.5 * log 10 (sqrt (e / 120))))"
      "c ''magnitude_orig'' = Some (Num m)"
      "c ''exposuretime_orig'' = Some (Num e)"
      "\<forall>k. k \<notin> single_exposure_keys \<union> params_struct_keys \<longrightarrow> c k = demo_config k"
    unfolding single_exposed_def cfg0 by blast
  from me(1,2) have m: "m = 20" and e: "e = 30" by (simp_all add: demo_config_def)
  have "''FOV'' \<notin> single_exposure_keys \<union> params_struct_keys"
    by (simp add: single_exposure_keys_def params_struct_keys_def)
  with me(7) have "c ''FOV'' = demo_config ''FOV''" by blast
  then have fov: "c ''FOV'' = Some (Num 5)" by (simp add: demo_config_def)
  from p(1) c(2) me(3-6) fov show ?thesis unfolding m e by blast
qed

section \<open>Claims about the core engine\<close>

lemma sum_list_filter_mset:
  assumes "mset xs = mset ys"
  shows "sum_list (map f (filter P xs)) = sum_list (map (f :: 'a \<Rightarrow> real) (filter P ys))"
proof -
  have "mset (map f (filter P xs)) = mset (map f (filter P ys))"
    using assms by (metis mset_filter mset_map)
  then show ?thesis by (metis sum_mset_sum_list)
qed

lemma place_tile_order:
  assumes "mset grid' = mset grid"
  shows "place_tile inside grid' profile c = place_tile inside grid profile c"
proof -
  from assms have s: "set grid' = set grid" by (rule mset_eq_setD)
  show ?thesis
    using sum_list_filter_mset[OF assms, of probability] s
    by (simp add: place_tile_def Let_def split: prod.splits)
qed

text \<open>
  Claim C6. Fixed-tessellation tiling is deterministic: two runs on the same grid and
  telescope profile yield identical Tile sets with identical probability masses. A
  function of the model returns the same value on the same arguments by construction;
  what two runs on the same grid and profile can differ in is the order in which the
  cells and the tile centres are enumerated (the tiler draws no random numbers, so the
  seed set at line 59 of the driver plays no part). The tiles, with their member cells
  and masses, are the same for every enumeration order of the same cells and the same
  centres.
\<close>

theorem fixed_tessellation_deterministic:
  assumes "mset grid' = mset grid" and "mset centers' = mset (tile_centers profile)"
  shows "mset (fixed_tessellation inside grid' (profile\<lparr>tile_centers := centers'\<rparr>)) =
         mset (fixed_tessellation inside grid profile)"
proof -
  have "place_tile inside grid' (profile\<lparr>tile_centers := centers'\<rparr>) = place_tile inside grid profile"
    using place_tile_order[OF assms(1), of inside]
    by (auto simp: fun_eq_iff place_tile_def Let_def split: prod.splits)
  then have "mset (fixed_tessellation inside grid' (profile\<lparr>tile_centers := centers'\<rparr>)) =
        image_mset (place_tile inside grid profile) (mset centers')"
    by (simp add: fixed_tessellation_def)
  also have "\<dots> = mset (fixed_tessellation inside grid profile)"
    using assms(2) by (simp add: fixed_tessellation_def)
  finally show ?thesis .
qed

theorem fixed_tessellation_deterministic_witness:
  "mset (fixed_tessellation demo_inside (rev demo_grid)
           (demo_profile\<lparr>tile_centers := rev (tile_centers demo_profile)\<rparr>)) =
   mset (fixed_tessellation demo_inside demo_grid demo_profile) \<and>
   fixed_tessellation demo_inside demo_grid demo_profile =
     [\<lparr>tile_id = 0, center_ra = 0, center_dec = 0, footprint_shape = Square 3,
        member_cell_ids = {0, 1}, probability_mass = 9 / 10, assigned_telescope = ''ATLAS''\<rparr>,
      \<lparr>tile_id = 1, center_ra = 5, center_dec = 5, footprint_shape = Square 3,
        member_cell_ids = {2}, probability_mass = 1 / 10, assigned_telescope = ''ATLAS''\<rparr>]"
proof -
  have a: "mset (rev demo_grid) = mset demo_grid"
    and b: "mset (rev (tile_centers demo_profile)) = mset (tile_centers demo_profile)"
    by simp_all
  have c: "fixed_tessellation demo_inside demo_grid demo_profile =
     [\<lparr>tile_id = 0, center_ra = 0, center_dec = 0, footprint_shape = Square 3,
        member_cell_ids = {0, 1}, probability_mass = 9 / 10, assigned_telescope = ''ATLAS''\<rparr>,
      \<lparr>tile_id = 1, center_ra = 5, center_dec = 5, footprint_shape = Square 3,
        member_cell_ids = {2}, probability_mass = 1 / 10, assigned_telescope = ''ATLAS''\<rparr>]"
    by (simp add: fixed_tessellation_def place_tile_def demo_inside_def demo_grid_def
        demo_profile_def demo_cell_def)
  from fixed_tessellation_deterministic[OF a b, of demo_inside] c show ?thesis by simp
qed

lemma first_fit_Some:
  "first_fit ready d stop w = Some (start, iv) \<Longrightarrow>
     iv \<in> set w \<and> ready \<le> start \<and> fst iv \<le> start \<and> start + d \<le> snd iv \<and> start + d \<le> stop"
  by (induction w) (auto simp: Let_def split: if_splits)

lemma select_best_mem: "select_best pr st cs = Some t \<Longrightarrow> t \<in> set cs"
  by (induction cs arbitrary: t) (auto split: option.splits if_splits)

lemma strictly_ordered_if:
  assumes "non_overlapping es" and "\<forall>e \<in> set es. se_start e < se_end e"
  shows "strictly_ordered es"
  unfolding strictly_ordered_def
proof (rule sorted_wrt_mono_rel[of es "\<lambda>a b. se_end a \<le> se_start b"])
  show "sorted_wrt (\<lambda>a b. se_end a \<le> se_start b) es"
    using assms(1) by (simp add: non_overlapping_def)
next
  fix a b assume "a \<in> set es" "b \<in> set es" "se_end a \<le> se_start b"
  with assms(2) show "se_start a < se_start b" by force
qed

lemma sched_step_Inl:
  assumes "sched_step pr st = Inl final" and "sched_inv pr tiles st"
  shows "sched_inv pr tiles final"
proof -
  from assms(1) have e: "entries final = entries st" and c: "current_time final = current_time st"
    and q: "set (queue final) \<subseteq> set (queue st)"
    by (auto simp: sched_step_def Let_def split: if_splits option.splits)
  with assms(2) show ?thesis unfolding sched_inv_def by auto
qed

lemma decrement_same:
  "q' \<in> set (decrement t q) \<Longrightarrow>
     sd_id q' = sd_id q \<and> sd_window q' = sd_window q \<and> sd_duration q' = sd_duration q"
  by (auto simp: decrement_def split: if_splits)

lemma sched_step_Inr:
  assumes step: "sched_step pr st = Inr st'" and inv: "sched_inv pr tiles st"
    and slew: "\<forall>a b. 0 \<le> slew_time pr a b" and dur: "\<forall>t \<in> set tiles. 0 < sd_duration t"
  shows "sched_inv pr tiles st'"
proof -
  let ?free = "filter (\<lambda>t. \<not> reserved_by_other pr (reservations st) t) (queue st)"
  let ?fitting = "filter (\<lambda>t. fit_of pr st t \<noteq> None) ?free"
  from step obtain t start iv where
    sel: "select_best pr st ?fitting = Some t" and fit: "fit_of pr st t = Some (start, iv)"
    and st': "st' = emit pr (st\<lparr> missed := missed st
          @ map (\<lambda>t. (sd_id t, ReservedByOther)) (filter (reserved_by_other pr (reservations st)) (queue st))
          @ map (\<lambda>t. (sd_id t, WindowClosed)) (filter (\<lambda>t. fit_of pr st t = None) ?free),
        queue := ?fitting \<rparr>) t start"
    by (auto simp: sched_step_def Let_def split: if_splits option.splits)
  from select_best_mem[OF sel] have tq: "t \<in> set (queue st)" by simp
  from inv tq obtain t0 where t0: "t0 \<in> set tiles" "sd_id t0 = sd_id t"
    "sd_window t0 = sd_window t" "sd_duration t0 = sd_duration t"
    unfolding sched_inv_def by blast
  from dur t0 have dpos: "0 < sd_duration t" by force
  from first_fit_Some[OF fit[unfolded fit_of_def]] have
    iv: "iv \<in> set (sd_window t)" and rdy: "ready_time pr st t \<le> start"
    and lo: "fst iv \<le> start" and hi: "start + sd_duration t \<le> snd iv"
    by simp_all
  from slew have "0 \<le> slew_time pr (current_position st) (sd_center t)" by blast
  then have "current_time st \<le> ready_time pr st t" by (simp add: ready_time_def)
  with rdy have now: "current_time st \<le> start" by simp
  let ?e = "\<lparr> se_telescope = sc_telescope pr, se_tile = sd_id t, se_start = start,
              se_end = start + sd_duration t, se_filter = choose_filter pr (sd_done t) \<rparr>"
  have es: "entries st' = entries st @ [?e]" and ct: "current_time st' = start + sd_duration t"
    and qs: "queue st' = concat (map (decrement t) ?fitting)"
    by (simp_all add: st' emit_def)
  have old: "\<forall>e \<in> set (entries st). se_start e < se_end e \<and> se_end e \<le> current_time st \<and>
        se_telescope e = sc_telescope pr \<and> in_window tiles e"
    and no: "non_overlapping (entries st)"
    using inv by (simp_all add: sched_inv_def)
  have new_win: "in_window tiles ?e"
    unfolding in_window_def using t0 iv lo hi by (intro bexI[of _ t0] conjI bexI[of _ iv]) simp_all
  have "non_overlapping (entries st')"
    unfolding es non_overlapping_def sorted_wrt_append
    using no old now by (auto simp: non_overlapping_def)
  moreover have "\<forall>e \<in> set (entries st'). se_start e < se_end e \<and> se_end e \<le> current_time st' \<and>
        se_telescope e = sc_telescope pr \<and> in_window tiles e"
    unfolding es ct using old now dpos new_win by auto
  moreover have "\<forall>q \<in> set (queue st').
        \<exists>t \<in> set tiles. sd_id t = sd_id q \<and> sd_window t = sd_window q \<and> sd_duration t = sd_duration q"
  proof
    fix q' assume "q' \<in> set (queue st')"
    then obtain q where q: "q \<in> set (queue st)" "q' \<in> set (decrement t q)"
      unfolding qs by auto
    from inv q(1) obtain u where "u \<in> set tiles" "sd_id u = sd_id q" "sd_window u = sd_window q"
      "sd_duration u = sd_duration q" unfolding sched_inv_def by blast
    with decrement_same[OF q(2)] show
      "\<exists>t \<in> set tiles. sd_id t = sd_id q' \<and> sd_window t = sd_window q' \<and> sd_duration t = sd_duration q'"
      by auto
  qed
  ultimately show ?thesis unfolding sched_inv_def by blast
qed

lemma sched_loop_inv:
  "sched_inv pr tiles st \<Longrightarrow> \<forall>a b. 0 \<le> slew_time pr a b \<Longrightarrow>
   \<forall>t \<in> set tiles. 0 < sd_duration t \<Longrightarrow> sched_inv pr tiles (sched_loop pr st)"
proof (induction pr st rule: sched_loop.induct)
  case (1 pr st)
  show ?case
  proof (cases "sched_step pr st")
    case (Inl final)
    with sched_step_Inl[OF Inl "1.prems"(1)] show ?thesis by simp
  next
    case (Inr st')
    have "sched_inv pr tiles st'"
      by (rule sched_step_Inr[OF Inr "1.prems"])
    from "1.IH"[OF Inr this "1.prems"(2,3)] Inr show ?thesis by simp
  qed
qed


lemma schedule_telescope_inv:
  assumes "\<forall>a b. 0 \<le> slew_time pr a b" and "\<forall>t \<in> set tiles. 0 < sd_duration t"
  shows "sched_inv pr tiles (schedule_telescope pr table pos t0 budget tiles)"
  unfolding schedule_telescope_def
proof (rule sched_loop_inv[OF _ assms])
  show "sched_inv pr tiles
     \<lparr> current_time = t0, current_position = pos, remaining_budget = budget,
       queue = filter (\<lambda>t. 0 < sd_remaining t) tiles,
       entries = [], missed = [], reservations = table \<rparr>"
    by (auto simp: sched_inv_def non_overlapping_def)
qed

text \<open>What the scheduling of a well-formed job ends in.\<close>

lemma job_entries:
  assumes "well_formed_job j"
  shows "sched_inv (job_profile j) (job_tiles j)
     (schedule_telescope (job_profile j) table (job_position j) (job_start j) (job_budget j)
        (job_tiles j))"
  using assms by (intro schedule_telescope_inv) (simp_all add: well_formed_job_def)

lemma schedule_all_inv:
  "\<forall>j \<in> set jobs. well_formed_job j \<Longrightarrow>
   list_all2 (\<lambda>j f. sched_inv (job_profile j) (job_tiles j) f) jobs (schedule_all table jobs)"
proof (induction jobs arbitrary: table)
  case Nil
  then show ?case by simp
next
  case (Cons j js)
  then show ?case by (simp add: Let_def job_entries)
qed

text \<open>The entries of a telescope in the concatenation of the telescopes' entries.\<close>

lemma entries_of_none:
  assumes "list_all2 (\<lambda>j f. sched_inv (job_profile j) (job_tiles j) f) jobs finals"
    and "tn \<notin> set (map (\<lambda>j. sc_telescope (job_profile j)) jobs)"
  shows "filter (\<lambda>e. se_telescope e = tn) (concat (map entries finals)) = []"
  using assms
proof (induction rule: list_all2_induct)
  case Nil
  then show ?case by simp
next
  case (Cons j js f fs)
  from Cons.hyps(1) Cons.prems have "\<forall>e \<in> set (entries f). se_telescope e \<noteq> tn"
    by (auto simp: sched_inv_def)
  then have "filter (\<lambda>e. se_telescope e = tn) (entries f) = []" by (simp add: filter_empty_conv)
  with Cons show ?case by simp
qed

lemma entries_of_concat:
  assumes "list_all2 (\<lambda>j f. sched_inv (job_profile j) (job_tiles j) f) jobs finals"
    and "distinct (map (\<lambda>j. sc_telescope (job_profile j)) jobs)"
  shows "filter (\<lambda>e. se_telescope e = tn) (concat (map entries finals)) = [] \<or>
         (\<exists>j f. j \<in> set jobs \<and> sc_telescope (job_profile j) = tn \<and>
            sched_inv (job_profile j) (job_tiles j) f \<and>
            filter (\<lambda>e. se_telescope e = tn) (concat (map entries finals)) = entries f)"
  using assms
proof (induction rule: list_all2_induct)
  case Nil
  then show ?case by simp
next
  case (Cons j js f fs)
  show ?case
  proof (cases "sc_telescope (job_profile j) = tn")
    case True
    with Cons.prems have "tn \<notin> set (map (\<lambda>j. sc_telescope (job_profile j)) js)" by auto
    from entries_of_none[OF Cons.hyps(2) this]
    have rest: "filter (\<lambda>e. se_telescope e = tn) (concat (map entries fs)) = []" .
    from Cons.hyps(1) True have "\<forall>e \<in> set (entries f). se_telescope e = tn"
      by (auto simp: sched_inv_def)
    then have "filter (\<lambda>e. se_telescope e = tn) (entries f) = entries f" by simp
    with rest True Cons.hyps(1) show ?thesis by auto
  next
    case False
    with Cons.hyps(1) have "\<forall>e \<in> set (entries f). se_telescope e \<noteq> tn"
      by (auto simp: sched_inv_def)
    then have here: "filter (\<lambda>e. se_telescope e = tn) (entries f) = []"
      by (simp add: filter_empty_conv)
    from Cons.IH Cons.prems have
      "filter (\<lambda>e. se_telescope e = tn) (concat (map entries fs)) = [] \<or>
         (\<exists>j f. j \<in> set js \<and> sc_telescope (job_profile j) = tn \<and>
            sched_inv (job_profile j) (job_tiles j) f \<and>
            filter (\<lambda>e. se_telescope e = tn) (concat (map entries fs)) = entries f)"
      by simp
    with here show ?thesis by auto
  qed
qed

lemma sched_inv_sorted:
  assumes "sched_inv pr tiles f"
  shows "strictly_ordered (entries f)" and "non_overlapping (entries f)"
    and "sort_key se_start (entries f) = entries f"
proof -
  from assms show no: "non_overlapping (entries f)" by (simp add: sched_inv_def)
  from assms have "\<forall>e \<in> set (entries f). se_start e < se_end e" by (simp add: sched_inv_def)
  from strictly_ordered_if[OF no this] show so: "strictly_ordered (entries f)" .
  then have "sorted_wrt (<) (map se_start (entries f))"
    by (simp add: strictly_ordered_def sorted_wrt_map)
  then have "sorted (map se_start (entries f))" by (rule strict_sorted_imp_sorted)
  then show "sort_key se_start (entries f) = entries f" by (rule sort_key_id_if_sorted)
qed

lemmas sched_defs = schedule_telescope_def sched_step_def fit_of_def ready_time_def
  reserved_by_other_def preferred_def starts_def heavier_def choose_filter_def emit_def
  decrement_def demo_telescope_def demo_sched_tile_def demo_job_def

text \<open>
  Scenario C of the spec: two tiles with the windows \<open>[0,10)\<close> and \<open>[20,30)\<close>, exposure
  duration 5, no slew: entries at \<open>[0,5)\<close> and \<open>[20,25)\<close>, no missed tile.
\<close>

lemma scenario_C:
  "entries (schedule_telescope demo_telescope Map.empty (0, 0) 0 60
     [demo_sched_tile 0 (3 / 10) 5 [(20, 30)], demo_sched_tile 1 (7 / 10) 5 [(0, 10)]]) =
     [\<lparr>se_telescope = ''ATLAS'', se_tile = 1, se_start = 0, se_end = 5, se_filter = ''r''\<rparr>,
      \<lparr>se_telescope = ''ATLAS'', se_tile = 0, se_start = 20, se_end = 25, se_filter = ''r''\<rparr>] \<and>
   missed (schedule_telescope demo_telescope Map.empty (0, 0) 0 60
     [demo_sched_tile 0 (3 / 10) 5 [(20, 30)], demo_sched_tile 1 (7 / 10) 5 [(0, 10)]]) = []"
  by (simp add: sched_defs Let_def)

text \<open>
  Scenario D of the spec: a window \<open>[0,5)\<close> and an exposure duration of 10: the tile is
  missed, the window closed.
\<close>

lemma scenario_D:
  "entries (schedule_telescope demo_telescope Map.empty (0, 0) 0 60
     [demo_sched_tile 0 1 10 [(0, 5)]]) = [] \<and>
   missed (schedule_telescope demo_telescope Map.empty (0, 0) 0 60
     [demo_sched_tile 0 1 10 [(0, 5)]]) = [(0, WindowClosed)]"
  by (simp add: sched_defs Let_def)

text \<open>
  Claim C2. For every telescope, the ScheduleEntries produced by the Scheduler are
  strictly ordered by time and pairwise non-overlapping, and every entry's
  \<open>[start_time, end_time)\<close> interval lies within one of that tile's VisibilityWindow
  intervals for that telescope. For jobs of distinct telescopes, with slew times that are
  not negative and exposure durations that are positive, the entries of any telescope in
  the coverage plan start strictly one after the other, each ends before the next starts,
  and each lies within an interval of the visibility window of its tile among the tiles
  of that telescope's job, with the length of the tile's exposure.
\<close>

theorem schedule_ordered_within_windows:
  assumes "\<forall>j \<in> set jobs. well_formed_job j"
    and "distinct (map (\<lambda>j. sc_telescope (job_profile j)) jobs)"
  shows "strictly_ordered (entries_of telescope (plan_coverage table jobs)) \<and>
         non_overlapping (entries_of telescope (plan_coverage table jobs)) \<and>
         (\<forall>e \<in> set (entries_of telescope (plan_coverage table jobs)).
            \<exists>j \<in> set jobs. sc_telescope (job_profile j) = telescope \<and> in_window (job_tiles j) e)"
proof -
  let ?finals = "schedule_all table jobs"
  let ?es = "filter (\<lambda>e. se_telescope e = telescope) (concat (map entries ?finals))"
  have eo: "entries_of telescope (plan_coverage table jobs) = sort_key se_start ?es"
    by (simp add: entries_of_def plan_coverage_def Let_def filter_sort)
  from entries_of_concat[OF schedule_all_inv[OF assms(1), of table] assms(2), where tn = telescope]
  show ?thesis
  proof
    assume "?es = []"
    then show ?thesis unfolding eo by (simp add: strictly_ordered_def non_overlapping_def)
  next
    assume "\<exists>j f. j \<in> set jobs \<and> sc_telescope (job_profile j) = telescope \<and>
            sched_inv (job_profile j) (job_tiles j) f \<and> ?es = entries f"
    then obtain j f where j: "j \<in> set jobs" "sc_telescope (job_profile j) = telescope"
      and inv: "sched_inv (job_profile j) (job_tiles j) f" and es: "?es = entries f"
      by blast
    from sched_inv_sorted[OF inv] have
      "strictly_ordered (entries f)" "non_overlapping (entries f)"
      "sort_key se_start (entries f) = entries f" by simp_all
    moreover from inv have "\<forall>e \<in> set (entries f). in_window (job_tiles j) e"
      by (simp add: sched_inv_def)
    ultimately show ?thesis unfolding eo es using j by auto
  qed
qed

theorem schedule_ordered_within_windows_witness:
  "well_formed_job demo_job \<and>
   entries_of ''ATLAS'' (plan_coverage Map.empty [demo_job]) =
     [\<lparr>se_telescope = ''ATLAS'', se_tile = 1, se_start = 0, se_end = 5, se_filter = ''r''\<rparr>,
      \<lparr>se_telescope = ''ATLAS'', se_tile = 0, se_start = 20, se_end = 25, se_filter = ''r''\<rparr>] \<and>
   strictly_ordered (entries_of ''ATLAS'' (plan_coverage Map.empty [demo_job])) \<and>
   non_overlapping (entries_of ''ATLAS'' (plan_coverage Map.empty [demo_job]))"
proof -
  have wf: "\<forall>j \<in> set [demo_job]. well_formed_job j"
    by (simp add: well_formed_job_def demo_job_def demo_telescope_def demo_sched_tile_def)
  have d: "distinct (map (\<lambda>j. sc_telescope (job_profile j)) [demo_job])" by simp
  have e: "entries_of ''ATLAS'' (plan_coverage Map.empty [demo_job]) =
     [\<lparr>se_telescope = ''ATLAS'', se_tile = 1, se_start = 0, se_end = 5, se_filter = ''r''\<rparr>,
      \<lparr>se_telescope = ''ATLAS'', se_tile = 0, se_start = 20, se_end = 25, se_filter = ''r''\<rparr>]"
    by (simp add: entries_of_def plan_coverage_def sched_defs Let_def)
  from schedule_ordered_within_windows[OF wf d, of "''ATLAS''" Map.empty] wf e
  show ?thesis by simp
qed

end
